theory Spec2Isabelle
  imports Complex_Main
begin

section \<open>Vectors, quaternions and scene objects\<close>

text \<open>
  The program is a single TypeScript module (\<^verbatim>\<open>main.ts\<close>) that exists in three
  variants: \<^verbatim>\<open>src/main.ts\<close> (no stuck detection, no generation token),
  \<^verbatim>\<open>part_001\<close> (stuck detection with retry cap 3, token, frame export) and
  \<^verbatim>\<open>part_000\<close> (retry cap 10, token, frame export, fixed-frame playback).
  \<^verbatim>\<open>getFaceUp\<close> and \<^verbatim>\<open>makeDesired\<close> are the same text in all three.

  JavaScript numbers are modelled as \<^typ>\<open>real\<close> (angles, coordinates, times) and as
  \<^typ>\<open>nat\<close> (face values, counters, indices); \<^verbatim>\<open>Math.PI\<close> is \<^term>\<open>pi\<close>.
  Rounding and NaN of IEEE doubles are outside the model.
\<close>

datatype vec3 = Vec3 (vx: real) (vy: real) (vz: real)

datatype quat = Quat (qx: real) (qy: real) (qz: real) (qw: real)

text \<open>\<^verbatim>\<open>THREE.Group\<close>: the two fields the program writes.\<close>

record object3d =
  position :: vec3
  quaternion :: quat

text \<open>\<^verbatim>\<open>Vector3.length\<close>, \<^verbatim>\<open>Vector3.normalize\<close> (which divides by \<^verbatim>\<open>length() || 1\<close>),
  \<^verbatim>\<open>Vector3.distanceTo\<close>.\<close>

definition vlength :: "vec3 \<Rightarrow> real" where
  "vlength v = sqrt (vx v * vx v + vy v * vy v + vz v * vz v)"

definition multiplyScalar :: "vec3 \<Rightarrow> real \<Rightarrow> vec3" where
  "multiplyScalar v s = Vec3 (vx v * s) (vy v * s) (vz v * s)"

definition normalizeVec :: "vec3 \<Rightarrow> vec3" where
  "normalizeVec v = multiplyScalar v (1 / (if vlength v = 0 then 1 else vlength v))"

definition distanceTo :: "vec3 \<Rightarrow> vec3 \<Rightarrow> real" where
  "distanceTo a b = sqrt ((vx a - vx b) * (vx a - vx b) + (vy a - vy b) * (vy a - vy b)
                          + (vz a - vz b) * (vz a - vz b))"

text \<open>\<^verbatim>\<open>Quaternion.setFromAxisAngle\<close> and \<^verbatim>\<open>Quaternion.multiply\<close> (\<^verbatim>\<open>this * q\<close>).\<close>

definition setFromAxisAngle :: "vec3 \<Rightarrow> real \<Rightarrow> quat" where
  "setFromAxisAngle axis angle =
     (let halfAngle = angle / 2; s = sin halfAngle
      in Quat (vx axis * s) (vy axis * s) (vz axis * s) (cos halfAngle))"

definition multiply :: "quat \<Rightarrow> quat \<Rightarrow> quat" where
  "multiply a b = Quat
     (qx a * qw b + qw a * qx b + qy a * qz b - qz a * qy b)
     (qy a * qw b + qw a * qy b + qz a * qx b - qx a * qz b)
     (qz a * qw b + qw a * qz b + qx a * qy b - qy a * qx b)
     (qw a * qw b - qx a * qx b - qy a * qy b - qz a * qz b)"

section \<open>Outcome classifier: \<^verbatim>\<open>getFaceUp\<close>\<close>

definition eps :: real where
  "eps = 0.1"

definition isZero :: "real \<Rightarrow> bool" where
  "isZero angle \<longleftrightarrow> \<bar>angle\<bar> < eps"

definition isHalfPi :: "real \<Rightarrow> bool" where
  "isHalfPi angle \<longleftrightarrow> \<bar>angle - 0.5 * pi\<bar> < eps"

definition isMinusHalfPi :: "real \<Rightarrow> bool" where
  "isMinusHalfPi angle \<longleftrightarrow> \<bar>0.5 * pi + angle\<bar> < eps"

definition isPiOrMinusPi :: "real \<Rightarrow> bool" where
  "isPiOrMinusPi angle \<longleftrightarrow> \<bar>pi - angle\<bar> < eps \<or> \<bar>pi + angle\<bar> < eps"

text \<open>The argument is the Euler triple \<^verbatim>\<open>(x, y, z)\<close> that \<^verbatim>\<open>Quaternion.toEuler\<close> wrote
  into a \<^verbatim>\<open>CANNON.Vec3\<close>; the result 0 is "landed on edge".\<close>

definition getFaceUp :: "vec3 \<Rightarrow> nat" where
  "getFaceUp euler =
     (if isZero (vz euler) then
        (if isZero (vx euler) then 1
         else if isHalfPi (vx euler) then 4
         else if isMinusHalfPi (vx euler) then 3
         else if isPiOrMinusPi (vx euler) then 6
         else 0)
      else if isHalfPi (vz euler) then 2
      else if isMinusHalfPi (vz euler) then 5
      else 0)"

text \<open>The decision order as the specification words it: "within \<open>\<epsilon>\<close> of" a target angle.\<close>

definition within_eps :: "real \<Rightarrow> real \<Rightarrow> bool" where
  "within_eps angle target \<longleftrightarrow> \<bar>angle - target\<bar> < 0.1"

definition getFaceUp_spec :: "vec3 \<Rightarrow> nat" where
  "getFaceUp_spec euler =
     (if within_eps (vz euler) 0 then
        (if within_eps (vx euler) 0 then 1
         else if within_eps (vx euler) (pi / 2) then 4
         else if within_eps (vx euler) (- (pi / 2)) then 3
         else if within_eps (vx euler) pi \<or> within_eps (vx euler) (- pi) then 6
         else 0)
      else if within_eps (vz euler) (pi / 2) then 2
      else if within_eps (vz euler) (- (pi / 2)) then 5
      else 0)"

section \<open>Outcome corrector: \<^verbatim>\<open>makeDesired\<close>\<close>

text \<open>The axis and the angle the chain of conditionals leaves in \<^verbatim>\<open>rotationAxis\<close> and
  \<^verbatim>\<open>angle\<close>; both start as \<open>(1, 0, 0)\<close> and \<open>\<pi>/2\<close>, and a branch overwrites one or both.\<close>

definition rotationFor :: "nat \<Rightarrow> nat \<Rightarrow> vec3 \<times> real" where
  "rotationFor actual desired =
     (let rotationAxis = Vec3 1 0 0; angle = pi / 2 in
      if actual = 1 then
        (if desired = 2 then (Vec3 0 0 1, angle)
         else if desired = 3 then (Vec3 (- 1) 0 0, angle)
         else if desired = 4 then (Vec3 1 0 0, angle)
         else if desired = 5 then (Vec3 0 0 (- 1), angle)
         else if desired = 6 then (rotationAxis, pi)
         else (rotationAxis, angle))
      else if actual = 2 then
        (if desired = 1 then (Vec3 0 0 (- 1), angle)
         else if desired = 3 then (Vec3 1 0 1, pi)
         else if desired = 4 then (Vec3 1 0 (- 1), pi)
         else if desired = 5 then (Vec3 0 0 1, pi)
         else if desired = 6 then (Vec3 0 0 1, angle)
         else (rotationAxis, angle))
      else if actual = 3 then
        (if desired = 1 then (Vec3 1 0 0, angle)
         else if desired = 2 then (Vec3 1 0 1, pi)
         else if desired = 4 then (Vec3 1 0 0, pi)
         else if desired = 5 then (Vec3 1 0 (- 1), pi)
         else if desired = 6 then (Vec3 (- 1) 0 0, angle)
         else (rotationAxis, angle))
      else if actual = 4 then
        (if desired = 1 then (Vec3 (- 1) 0 0, angle)
         else if desired = 2 then (Vec3 1 0 (- 1), pi)
         else if desired = 3 then (Vec3 1 0 0, pi)
         else if desired = 5 then (Vec3 1 0 1, pi)
         else if desired = 6 then (Vec3 1 0 0, angle)
         else (rotationAxis, angle))
      else if actual = 5 then
        (if desired = 1 then (Vec3 0 0 1, angle)
         else if desired = 2 then (Vec3 0 0 1, pi)
         else if desired = 3 then (Vec3 1 0 (- 1), pi)
         else if desired = 4 then (Vec3 1 0 1, pi)
         else if desired = 6 then (Vec3 0 0 (- 1), angle)
         else (rotationAxis, angle))
      else if actual = 6 then
        (if desired = 1 then (Vec3 0 0 1, pi)
         else if desired = 2 then (Vec3 0 0 (- 1), angle)
         else if desired = 3 then (Vec3 1 0 0, angle)
         else if desired = 4 then (Vec3 (- 1) 0 0, angle)
         else if desired = 5 then (Vec3 0 0 1, angle)
         else (rotationAxis, angle))
      else (rotationAxis, angle))"

definition rotationQuaternion :: "nat \<Rightarrow> nat \<Rightarrow> quat" where
  "rotationQuaternion actual desired =
     (case rotationFor actual desired of
        (rotationAxis, angle) \<Rightarrow> setFromAxisAngle (normalizeVec rotationAxis) angle)"

definition makeDesired :: "'a object3d_scheme \<Rightarrow> nat \<Rightarrow> nat \<Rightarrow> 'a object3d_scheme" where
  "makeDesired mesh actual desired =
     (if actual = desired then mesh
      else mesh\<lparr>quaternion := multiply (quaternion mesh) (rotationQuaternion actual desired)\<rparr>)"

text \<open>
  Geometry used to state what a displayed orientation shows. The dice rest on a floor whose
  normal is the world's \<open>+y\<close> axis (gravity is \<open>(0, -50, 0)\<close>). For an orientation \<open>q\<close>
  the body-frame direction that points up is \<open>q\<^sup>-\<^sup>1 (0,1,0) q\<close>. cannon-es writes
  the \<^verbatim>\<open>YZX\<close> Euler triple of \<open>q\<close>: heading about \<open>y\<close>, then attitude about \<open>z\<close>, then bank
  about \<open>x\<close>, so an Euler triple \<open>(x, y, z)\<close> stands for the orientation
  \<open>Y(y) * Z(z) * X(x)\<close>.
\<close>

definition conjugate :: "quat \<Rightarrow> quat" where
  "conjugate q = Quat (- qx q) (- qy q) (- qz q) (qw q)"

definition rotateVec :: "quat \<Rightarrow> vec3 \<Rightarrow> vec3" where
  "rotateVec q v =
     (let p = multiply (multiply q (Quat (vx v) (vy v) (vz v) 0)) (conjugate q)
      in Vec3 (qx p) (qy p) (qz p))"

definition upLocal :: "quat \<Rightarrow> vec3" where
  "upLocal q = rotateVec (conjugate q) (Vec3 0 1 0)"

definition ofEuler :: "vec3 \<Rightarrow> quat" where
  "ofEuler e = multiply (multiply (setFromAxisAngle (Vec3 0 1 0) (vy e))
                                  (setFromAxisAngle (Vec3 0 0 1) (vz e)))
                        (setFromAxisAngle (Vec3 1 0 0) (vx e))"

text \<open>The Euler triple at the centre of each face's tolerance box, for any heading \<open>h\<close>,
  and the outward normal, in the body frame, of the face that the classifier numbers \<open>f\<close>.\<close>

definition faceEuler :: "nat \<Rightarrow> real \<Rightarrow> vec3" where
  "faceEuler f h =
     (if f = 1 then Vec3 0 h 0
      else if f = 2 then Vec3 0 h (pi / 2)
      else if f = 3 then Vec3 (- (pi / 2)) h 0
      else if f = 4 then Vec3 (pi / 2) h 0
      else if f = 5 then Vec3 0 h (- (pi / 2))
      else Vec3 pi h 0)"

definition faceNormal :: "nat \<Rightarrow> vec3" where
  "faceNormal f =
     (if f = 1 then Vec3 0 1 0
      else if f = 2 then Vec3 1 0 0
      else if f = 3 then Vec3 0 0 1
      else if f = 4 then Vec3 0 0 (- 1)
      else if f = 5 then Vec3 (- 1) 0 0
      else Vec3 0 (- 1) 0)"

section \<open>Scenario generator: \<^verbatim>\<open>generateNonOverlappingPositions\<close>\<close>

text \<open>
  \<^verbatim>\<open>rng\<close> is the generator returned by \<^verbatim>\<open>seedrandom(seed)\<close>, a library outside the
  repository: a stream of numbers in \<open>[0, 1)\<close>. The model takes the stream as a function
  from the number of the draw to its value and threads the number of draws made so far.
  Names without a suffix follow \<^verbatim>\<open>part_000\<close>; the suffix \<open>_p001\<close> marks \<^verbatim>\<open>part_001\<close> and
  the suffix \<open>_main\<close> marks \<^verbatim>\<open>src/main.ts\<close> (which has no such function and lines the
  dice up at \<open>(1.5 * dIdx, 0, 0)\<close>).
\<close>

type_synonym rng = "nat \<Rightarrow> real"

definition BOX_WIDTH :: real where
  "BOX_WIDTH = 8"

definition BOX_HEIGHT :: real where
  "BOX_HEIGHT = 8"

definition minDistance :: real where
  "minDistance = 1.2"

definition maxAttempts :: nat where
  "maxAttempts = 100"

definition startHeight :: real where
  "startHeight = 3"

definition margin :: real where
  "margin = 1.5"

definition usableWidth :: real where
  "usableWidth = BOX_WIDTH - 2 * margin"

definition usableHeight :: real where
  "usableHeight = BOX_HEIGHT - 2 * margin"

definition halfUsableWidth :: real where
  "halfUsableWidth = usableWidth / 2"

definition halfUsableHeight :: real where
  "halfUsableHeight = usableHeight / 2"

text \<open>One pass through the body of the \<^verbatim>\<open>do ... while\<close>: three draws, in the order
  \<open>x\<close>, \<open>z\<close>, \<open>y\<close>, and the test against every position placed so far.\<close>

definition candidate :: "rng \<Rightarrow> nat \<Rightarrow> vec3" where
  "candidate rng k =
     (let x = (rng k - 0.5) * 2 * halfUsableWidth;
          z = (rng (k + 1) - 0.5) * 2 * halfUsableHeight;
          y = startHeight + rng (k + 2) * 0.5
      in Vec3 x y z)"

definition farEnough :: "vec3 \<Rightarrow> vec3 list \<Rightarrow> bool" where
  "farEnough newPosition positions =
     list_all (\<lambda>existingPos. distanceTo newPosition existingPos \<ge> minDistance) positions"

text \<open>The \<^verbatim>\<open>do ... while (!validPosition && attempts < maxAttempts)\<close> loop, entered with
  \<open>attempts\<close> passes already made; it returns the last candidate, whether it was valid,
  and the number of draws made.\<close>

function attempt :: "rng \<Rightarrow> vec3 list \<Rightarrow> nat \<Rightarrow> nat \<Rightarrow> vec3 \<times> bool \<times> nat" where
  "attempt rng positions k attempts =
     (let newPosition = candidate rng k;
          validPosition = farEnough newPosition positions;
          attempts' = attempts + 1
      in if \<not> validPosition \<and> attempts' < maxAttempts
         then attempt rng positions (k + 3) attempts'
         else (newPosition, validPosition, k + 3))"
  by pat_completeness auto
termination
  by (relation "measure (\<lambda>(rng, positions, k, attempts). maxAttempts - attempts)") auto

text \<open>The grid slot of die \<open>i\<close>, used when no valid candidate was found.\<close>

definition gridPosition :: "nat \<Rightarrow> nat \<Rightarrow> vec3" where
  "gridPosition numDice i =
     (let cols = nat \<lceil>sqrt (real numDice)\<rceil>;
          rows = nat \<lceil>real numDice / real cols\<rceil>;
          col = i mod cols;
          row = i div cols;
          gridSpacingX = usableWidth / real (max (cols - 1) 1);
          gridSpacingZ = usableHeight / real (max (rows - 1) 1);
          fallbackX = (real col - (real cols - 1) / 2) * min gridSpacingX minDistance;
          fallbackZ = (real row - (real rows - 1) / 2) * min gridSpacingZ minDistance
      in Vec3 fallbackX startHeight fallbackZ)"

text \<open>The \<^verbatim>\<open>for\<close> loop over the dice, from die \<open>i\<close> on.\<close>

function placeFrom :: "rng \<Rightarrow> nat \<Rightarrow> nat \<Rightarrow> vec3 list \<Rightarrow> nat \<Rightarrow> vec3 list \<times> nat" where
  "placeFrom rng numDice i positions k =
     (if i < numDice then
        (case attempt rng positions k 0 of
           (newPosition, validPosition, k') \<Rightarrow>
             placeFrom rng numDice (i + 1)
               (positions @ [if \<not> validPosition then gridPosition numDice i else newPosition]) k')
      else (positions, k))"
  by pat_completeness auto
termination
  by (relation "measure (\<lambda>(rng, numDice, i, positions, k). numDice - i)") auto

definition generateNonOverlappingPositions :: "nat \<Rightarrow> rng \<Rightarrow> nat \<Rightarrow> vec3 list \<times> nat" where
  "generateNonOverlappingPositions numDice rng k = placeFrom rng numDice 0 [] k"

subsection \<open>The variant of \<^verbatim>\<open>part_001\<close>: one row, separation along \<open>x\<close> only\<close>

definition BOX_WIDTH_p001 :: real where
  "BOX_WIDTH_p001 = 10"

definition minDistance_p001 :: real where
  "minDistance_p001 = 1.8"

definition fixedZ :: real where
  "fixedZ = 0"

definition usableWidth_p001 :: real where
  "usableWidth_p001 = min (BOX_WIDTH_p001 - 2) 8"

definition halfUsableWidth_p001 :: real where
  "halfUsableWidth_p001 = usableWidth_p001 / 2"

definition candidate_p001 :: "rng \<Rightarrow> nat \<Rightarrow> vec3" where
  "candidate_p001 rng k =
     (let x = (rng k - 0.5) * 2 * halfUsableWidth_p001;
          y = startHeight + rng (k + 1) * 1
      in Vec3 x y fixedZ)"

definition farEnough_p001 :: "vec3 \<Rightarrow> vec3 list \<Rightarrow> bool" where
  "farEnough_p001 newPosition positions =
     list_all (\<lambda>existingPos. \<bar>vx newPosition - vx existingPos\<bar> \<ge> minDistance_p001) positions"

function attempt_p001 :: "rng \<Rightarrow> vec3 list \<Rightarrow> nat \<Rightarrow> nat \<Rightarrow> vec3 \<times> bool \<times> nat" where
  "attempt_p001 rng positions k attempts =
     (let newPosition = candidate_p001 rng k;
          validPosition = farEnough_p001 newPosition positions;
          attempts' = attempts + 1
      in if \<not> validPosition \<and> attempts' < maxAttempts
         then attempt_p001 rng positions (k + 2) attempts'
         else (newPosition, validPosition, k + 2))"
  by pat_completeness auto
termination
  by (relation "measure (\<lambda>(rng, positions, k, attempts). maxAttempts - attempts)") auto

definition gridPosition_p001 :: "nat \<Rightarrow> nat \<Rightarrow> vec3" where
  "gridPosition_p001 numDice i =
     (let fallbackX = (real i - (real numDice - 1) / 2) * minDistance_p001
      in Vec3 fallbackX startHeight fixedZ)"

function placeFrom_p001 :: "rng \<Rightarrow> nat \<Rightarrow> nat \<Rightarrow> vec3 list \<Rightarrow> nat \<Rightarrow> vec3 list \<times> nat" where
  "placeFrom_p001 rng numDice i positions k =
     (if i < numDice then
        (case attempt_p001 rng positions k 0 of
           (newPosition, validPosition, k') \<Rightarrow>
             placeFrom_p001 rng numDice (i + 1)
               (positions @ [if \<not> validPosition then gridPosition_p001 numDice i else newPosition]) k')
      else (positions, k))"
  by pat_completeness auto
termination
  by (relation "measure (\<lambda>(rng, numDice, i, positions, k). numDice - i)") auto

definition generateNonOverlappingPositions_p001 :: "nat \<Rightarrow> rng \<Rightarrow> nat \<Rightarrow> vec3 list \<times> nat" where
  "generateNonOverlappingPositions_p001 numDice rng k = placeFrom_p001 rng numDice 0 [] k"

text \<open>A generator stuck at one value, to run the placement on.\<close>

definition rng_half :: rng where
  "rng_half k = 1 / 2"

section \<open>Roll resolver: \<^verbatim>\<open>simulateThrow\<close>\<close>

text \<open>
  A die's \<^verbatim>\<open>CANNON.Body\<close>: the fields the program reads or writes. Whatever else the
  engine keeps per body (sleep state, forces, contacts) is part of the engine's own state.
\<close>

record body = object3d +
  velocity :: vec3
  angularVelocity :: vec3
  allowSleep :: bool

text \<open>
  What the program calls and does not define: the physics engine (cannon-es), the Euler
  conversions (cannon-es, three.js), the seeded generator (seedrandom), the clock
  (\<^verbatim>\<open>performance.now()\<close>) and \<^verbatim>\<open>Math.random()\<close>. They are parameters of the model.
  \<^item> \<open>worldStep w bodies\<close> is one call \<^verbatim>\<open>simulationWorld.step(1 / 60, 1 / 60)\<close>: the engine's
    new state, the dice after the step, and the indices of the dice on which the engine
    dispatched a \<^verbatim>\<open>sleep\<close> event during the step, in dispatch order. The engine raises
    the event from the body's sleep tick, after integration, so the handler sees the body
    as the step leaves it, and what the handler writes (\<^verbatim>\<open>allowSleep\<close>) is read by the
    engine in later steps only.
  \<^item> \<open>performance_now k\<close> is what the \<open>k\<close>-th call of \<^verbatim>\<open>performance.now()\<close> returns, and
    \<open>math_random_seed k\<close> is the \<open>k\<close>-th \<^verbatim>\<open>Math.random().toString(36).slice(2)\<close>.
\<close>

record 'w env =
  worldStep :: "'w \<Rightarrow> body list \<Rightarrow> 'w \<times> body list \<times> nat list"
  applyImpulse :: "'w \<Rightarrow> nat \<Rightarrow> body \<Rightarrow> vec3 \<Rightarrow> vec3 \<Rightarrow> 'w \<times> body"
  toEuler :: "quat \<Rightarrow> vec3"
  setFromEuler :: "vec3 \<Rightarrow> quat"
  seedrandom :: "string \<Rightarrow> rng"
  performance_now :: "nat \<Rightarrow> real"
  math_random_seed :: "nat \<Rightarrow> string"

text \<open>
  The three variants of the function differ in the points collected here.
  \<^item> \<open>place\<close>: where the dice start (\<^verbatim>\<open>generateNonOverlappingPositions\<close>, or the fixed row of
    \<^verbatim>\<open>src/main.ts\<close>);
  \<^item> \<open>positionsGenerated\<close>: whether the positions are made beforehand, one for each of
    \<^verbatim>\<open>params.numberOfDice\<close> dice, and a body takes \<^verbatim>\<open>dicePositions[dIdx]\<close>; \<^verbatim>\<open>src/main.ts\<close>
    computes the position of a body from its index, whatever \<^verbatim>\<open>params.numberOfDice\<close> is;
  \<^item> \<open>seedReassigned\<close>: whether an absent \<^verbatim>\<open>seed\<close> is replaced (\<^verbatim>\<open>seed ??= ...\<close>) or stays
    \<^verbatim>\<open>undefined\<close> in the messages (\<^verbatim>\<open>seedrandom(seed ?? ...)\<close> in \<^verbatim>\<open>src/main.ts\<close>);
  \<^item> \<open>launch\<close>: the impulse drawn for one die and the number of draws it takes;
  \<^item> \<open>initialFace\<close>: the value \<^verbatim>\<open>rollResult\<close> is filled with before any die settles;
  \<^item> \<open>stuckDetection\<close>, \<open>retryLimit\<close>: whether the stuck check exists, and its retry cap;
  \<^item> \<open>detachOnExit\<close>: whether a timeout removes the remaining \<^verbatim>\<open>sleep\<close> listeners.
\<close>

record variant =
  place :: "nat \<Rightarrow> rng \<Rightarrow> nat \<Rightarrow> vec3 list \<times> nat"
  positionsGenerated :: bool
  seedReassigned :: bool
  launch :: "rng \<Rightarrow> nat \<Rightarrow> vec3 \<times> nat"
  initialFace :: nat
  stuckDetection :: bool
  retryLimit :: nat
  detachOnExit :: bool

definition launch_theta :: "rng \<Rightarrow> nat \<Rightarrow> vec3 \<times> nat" where
  "launch_theta rng k =
     (let force = 3 + 10 * rng k;
          theta = 2 * pi * rng (k + 1)
      in (Vec3 (sin theta * force) (cos theta * force) 0, k + 2))"

definition launch_main :: "rng \<Rightarrow> nat \<Rightarrow> vec3 \<times> nat" where
  "launch_main rng k =
     (let force = 3 + 5 * rng k
      in (Vec3 (- force) force 0, k + 1))"

definition place_main :: "nat \<Rightarrow> rng \<Rightarrow> nat \<Rightarrow> vec3 list \<times> nat" where
  "place_main numBodies rng k = (map (\<lambda>dIdx. Vec3 (real dIdx * 1.5) 0 0) [0..<numBodies], k)"

definition part_000 :: variant where
  "part_000 = \<lparr>place = generateNonOverlappingPositions, positionsGenerated = True,
                seedReassigned = True, launch = launch_theta, initialFace = 1,
                stuckDetection = True, retryLimit = 10, detachOnExit = True\<rparr>"

definition part_001 :: variant where
  "part_001 = \<lparr>place = generateNonOverlappingPositions_p001, positionsGenerated = True,
                seedReassigned = True, launch = launch_theta,
                initialFace = 1, stuckDetection = True, retryLimit = 3, detachOnExit = True\<rparr>"

definition main_ts :: variant where
  "main_ts = \<lparr>place = place_main, positionsGenerated = False, seedReassigned = False,
               launch = launch_main, initialFace = 0,
               stuckDetection = False, retryLimit = 0, detachOnExit = False\<rparr>"

text \<open>What the function writes to the console.\<close>

datatype message =
  StuckWarning nat string nat
  | TimeoutError nat string
  | TookLog real

fun isAlarm :: "message \<Rightarrow> bool" where
  "isAlarm (StuckWarning _ _ _) = True"
| "isAlarm (TimeoutError _ _) = True"
| "isAlarm (TookLog _) = False"

text \<open>The value the function returns: \<^verbatim>\<open>[rollResult, simulationRecord]\<close>.\<close>

record rollOutcome =
  rollResult :: "nat list"
  simulationRecord :: "(vec3 \<times> quat) list list"

text \<open>
  The state the function works on: the module's variables it touches, the counters of the
  external streams, and its own locals. \<open>eventHandlers\<close> is the array of the same name
  (\<open>True\<close>: a handler, \<open>False\<close>: \<^verbatim>\<open>null\<close>); \<open>listeners\<close> says which dice still have the
  handler registered for \<^verbatim>\<open>sleep\<close>. The loop counter \<^verbatim>\<open>i\<close> is \<open>i_steps\<close>.
  \<^verbatim>\<open>src/main.ts\<close> has no \<^verbatim>\<open>eventHandlers\<close> array; there the field only records which dice
  have not settled.
\<close>

record 'w sim = rollOutcome +
  simulationWorld :: 'w
  simulationDiceArray :: "body list"
  numberOfDice :: nat
  simulationResult :: "nat list"
  console :: "message list"
  clockReads :: nat
  randomReads :: nat
  seed :: string
  retryCount :: nat
  rngReads :: nat
  numSlept :: nat
  eventHandlers :: "bool list"
  listeners :: "bool list"
  lastPositions :: "vec3 list"
  simulationStart :: real
  i_steps :: nat

datatype error = TypeError

definition stuckDetectionThreshold :: real where
  "stuckDetectionThreshold = 0.001"

definition stuckDetectionSteps :: nat where
  "stuckDetectionSteps = 1000"

text \<open>The \<^verbatim>\<open>sleep\<close> handler of die \<open>dIdx\<close>.\<close>

definition eventHandler :: "'w env \<Rightarrow> nat \<Rightarrow> 'w sim \<Rightarrow> 'w sim" where
  "eventHandler env dIdx s =
     (let body = (simulationDiceArray s ! dIdx)\<lparr>allowSleep := False\<rparr>;
          euler = toEuler env (quaternion body);
          face = getFaceUp euler
      in if face \<noteq> 0 then
           s\<lparr>numSlept := numSlept s + 1,
             simulationResult := simulationResult s @ [face],
             rollResult := (rollResult s)[dIdx := face],
             eventHandlers := (eventHandlers s)[dIdx := False],
             listeners := (listeners s)[dIdx := False],
             simulationDiceArray := (simulationDiceArray s)[dIdx := body]\<rparr>
         else
           s\<lparr>simulationDiceArray := (simulationDiceArray s)[dIdx := body\<lparr>allowSleep := True\<rparr>]\<rparr>)"

text \<open>The events of one step reach the handlers that are still registered.\<close>

fun dispatchSleep :: "'w env \<Rightarrow> nat list \<Rightarrow> 'w sim \<Rightarrow> 'w sim" where
  "dispatchSleep env [] s = s"
| "dispatchSleep env (dIdx # rest) s =
     dispatchSleep env rest
       (if dIdx < length (simulationDiceArray s) \<and> dIdx < length (listeners s) \<and> listeners s ! dIdx
        then eventHandler env dIdx s else s)"

text \<open>The body of \<^verbatim>\<open>simulationDiceArray.forEach\<close> in the set-up, for die \<open>dIdx\<close>: the
  engine state, the dice and the number of draws made are threaded through.\<close>

definition setupDie ::
  "variant \<Rightarrow> 'w env \<Rightarrow> rng \<Rightarrow> vec3 list \<Rightarrow> nat \<Rightarrow> 'w \<times> body list \<times> nat \<Rightarrow> 'w \<times> body list \<times> nat" where
  "setupDie v env rng dicePositions dIdx acc =
     (case acc of (w, bodies, k) \<Rightarrow>
        (let body1 = (bodies ! dIdx)\<lparr>velocity := Vec3 0 0 0, angularVelocity := Vec3 0 0 0,
                                      position := dicePositions ! dIdx\<rparr>;
             rotation = Vec3 (2 * pi * rng k) (2 * pi * rng (k + 1)) (2 * pi * rng (k + 2));
             body2 = body1\<lparr>quaternion := setFromEuler env rotation\<rparr>
         in case launch v rng (k + 3) of (impulse, k') \<Rightarrow>
              (case applyImpulse env w dIdx body2 impulse (Vec3 0 0 0.2) of (w', body3) \<Rightarrow>
                 (w', bodies[dIdx := body3\<lparr>allowSleep := True\<rparr>], k'))))"

text \<open>
  Everything before the \<^verbatim>\<open>while\<close> loop. With an absent \<^verbatim>\<open>seed\<close> the generator is seeded with a
  string from \<^verbatim>\<open>Math.random()\<close>; the field \<open>seed\<close> is what the messages print as
  the seed. The set-up attaches one \<^verbatim>\<open>sleep\<close> handler to every body. The model describes a
  throw that is entered with no handler of an earlier throw left on a body, as is the case
  after every exit of \<^verbatim>\<open>part_000\<close> and \<^verbatim>\<open>part_001\<close>; \<^verbatim>\<open>src/main.ts\<close> leaves the handler of a die
  that had not settled at a timeout on its body, and what the engine does with two handlers
  on a body in a later throw is outside the model.
\<close>

definition prepare :: "variant \<Rightarrow> 'w env \<Rightarrow> string option \<Rightarrow> nat \<Rightarrow> 'w sim \<Rightarrow> 'w sim" where
  "prepare v env seedArg rc m =
     (let seed' = (case seedArg of Some sd \<Rightarrow> sd | None \<Rightarrow> math_random_seed env (randomReads m));
          randomReads' = (case seedArg of Some sd \<Rightarrow> randomReads m | None \<Rightarrow> randomReads m + 1);
          rng = seedrandom env seed';
          shownSeed = (if seedReassigned v then seed'
                       else (case seedArg of Some sd \<Rightarrow> sd | None \<Rightarrow> ''undefined''));
          numPositions = (if positionsGenerated v then numberOfDice m
                          else length (simulationDiceArray m))
      in case place v numPositions rng 0 of (dicePositions, k) \<Rightarrow>
           (case fold (setupDie v env rng dicePositions) [0..<length (simulationDiceArray m)]
                   (simulationWorld m, simulationDiceArray m, k) of
              (w, bodies, k') \<Rightarrow>
                m\<lparr>simulationResult := [],
                  randomReads := randomReads',
                  seed := shownSeed,
                  retryCount := rc,
                  rngReads := k',
                  numSlept := 0,
                  simulationRecord := [],
                  rollResult := map (\<lambda>_. initialFace v) (simulationDiceArray m),
                  eventHandlers := map (\<lambda>_. True) (simulationDiceArray m),
                  listeners := map (\<lambda>_. True) (simulationDiceArray m),
                  lastPositions := [],
                  simulationWorld := w,
                  simulationDiceArray := bodies,
                  simulationStart := performance_now env (clockReads m),
                  clockReads := clockReads m + 1,
                  i_steps := 0\<rparr>))"

text \<open>The \<^verbatim>\<open>for\<close> loop of the stuck check: no die has moved more than the threshold since
  the last window or is faster than the threshold.\<close>

definition allStuck :: "vec3 list \<Rightarrow> vec3 list \<Rightarrow> vec3 list \<Rightarrow> bool" where
  "allStuck currentPositions currentVelocities lastPos =
     list_all (\<lambda>dIdx.
        (let positionDelta = distanceTo (currentPositions ! dIdx) (lastPos ! dIdx);
             velocityMagnitude = vlength (currentVelocities ! dIdx)
         in \<not> (positionDelta > stuckDetectionThreshold \<or> velocityMagnitude > stuckDetectionThreshold)))
       [0..<length currentPositions]"

definition sample :: "'w sim \<Rightarrow> (vec3 \<times> quat) list" where
  "sample s = map (\<lambda>d. (position d, quaternion d)) (simulationDiceArray s)"

definition removeListeners :: "'w sim \<Rightarrow> 'w sim" where
  "removeListeners s =
     s\<lparr>listeners := map (\<lambda>(f, l). if f then False else l) (zip (eventHandlers s) (listeners s))\<rparr>"

datatype 'a step = Continue 'a | Retry 'a | TimedOut 'a

text \<open>The wall-clock check that ends the loop body.\<close>

definition deadline :: "variant \<Rightarrow> 'w env \<Rightarrow> 'w sim \<Rightarrow> 'w sim step" where
  "deadline v env s =
     (let now = performance_now env (clockReads s);
          s' = s\<lparr>clockReads := clockReads s + 1\<rparr>
      in if now - simulationStart s > 1000 then
           TimedOut ((if detachOnExit v then removeListeners s' else s')
                       \<lparr>console := console s' @ [TimeoutError (i_steps s') (seed s')]\<rparr>)
         else Continue s')"

text \<open>The first half of the loop body: the sample is recorded, the engine steps, the
  \<^verbatim>\<open>sleep\<close> events of the step are handled, and \<^verbatim>\<open>i\<close> is incremented.\<close>

definition advance :: "'w env \<Rightarrow> 'w sim \<Rightarrow> 'w sim" where
  "advance env s =
     (let s1 = s\<lparr>simulationRecord := simulationRecord s @ [sample s]\<rparr>
      in case worldStep env (simulationWorld s1) (simulationDiceArray s1) of (w, bodies, events) \<Rightarrow>
        (let s2 = dispatchSleep env events (s1\<lparr>simulationWorld := w, simulationDiceArray := bodies\<rparr>)
         in s2\<lparr>i_steps := i_steps s2 + 1\<rparr>))"

text \<open>One pass through the body of the \<^verbatim>\<open>while\<close> loop. \<open>Retry\<close> is the
  \<^verbatim>\<open>return simulateThrow(newSeed, retryCount + 1)\<close> of the stuck check, before the new seed
  is drawn.\<close>

definition iteration :: "variant \<Rightarrow> 'w env \<Rightarrow> 'w sim \<Rightarrow> 'w sim step" where
  "iteration v env s =
     (let s3 = advance env s
      in if stuckDetection v \<and> i_steps s3 mod stuckDetectionSteps = 0 then
           (let currentPositions = map position (simulationDiceArray s3);
                currentVelocities = map velocity (simulationDiceArray s3)
            in if lastPositions s3 \<noteq> []
                  \<and> allStuck currentPositions currentVelocities (lastPositions s3)
                  \<and> retryCount s3 < retryLimit v
               then Retry ((removeListeners s3)
                             \<lparr>console := console s3
                                @ [StuckWarning (i_steps s3) (seed s3) (retryCount s3 + 1)]\<rparr>)
               else deadline v env (s3\<lparr>lastPositions := currentPositions\<rparr>))
         else deadline v env s3)"

text \<open>After the loop: the last sample, and the log of the time taken.\<close>

definition finish :: "'w env \<Rightarrow> 'w sim \<Rightarrow> 'w sim" where
  "finish env s =
     s\<lparr>simulationRecord := simulationRecord s @ [sample s],
       console := console s
          @ [TookLog ((performance_now env (clockReads s) - simulationStart s) / 1000)],
       clockReads := clockReads s + 1\<rparr>"

text \<open>The new invocation a retry makes: a seed from \<^verbatim>\<open>Math.random()\<close> and the set-up again,
  which empties the trajectory and re-registers the handlers.\<close>

definition retryThrow :: "variant \<Rightarrow> 'w env \<Rightarrow> 'w sim \<Rightarrow> 'w sim" where
  "retryThrow v env s =
     prepare v env (Some (math_random_seed env (randomReads s))) (retryCount s + 1)
       (s\<lparr>randomReads := randomReads s + 1\<rparr>)"

text \<open>
  The \<^verbatim>\<open>while (numSlept < params.numberOfDice)\<close> loop. The recursive call of
  \<^verbatim>\<open>simulateThrow\<close> in the stuck check is a tail call whose result is returned as it is, so the
  retry continues the same loop from a new set-up. The loop need not end: \<open>None\<close> stands
  for a run that does not return.
\<close>

partial_function (option) loop :: "variant \<Rightarrow> 'w env \<Rightarrow> 'w sim \<Rightarrow> 'w sim option" where
  "loop v env s =
     (if numSlept s < numberOfDice s then
        (case iteration v env s of
           Continue s' \<Rightarrow> loop v env s'
         | Retry s' \<Rightarrow> loop v env (retryThrow v env s')
         | TimedOut s' \<Rightarrow> Some (finish env s'))
      else Some (finish env s))"

text \<open>
  \<^verbatim>\<open>simulateThrow(seed, retryCount)\<close> on the module state \<open>m\<close>. Where the positions are made
  beforehand and there are fewer of them than bodies, \<^verbatim>\<open>body.position\<close> of a die is
  \<^verbatim>\<open>undefined\<close> and the first \<^verbatim>\<open>d.position.clone()\<close> throws.
\<close>

definition simulateThrow ::
  "variant \<Rightarrow> 'w env \<Rightarrow> string option \<Rightarrow> nat \<Rightarrow> 'w sim \<Rightarrow> (error + 'w sim) option" where
  "simulateThrow v env seedArg rc m =
     (if positionsGenerated v \<and> numberOfDice m < length (simulationDiceArray m)
      then Some (Inl TypeError)
      else map_option Inr (loop v env (prepare v env seedArg rc m)))"

subsection \<open>Fixed-step adapters to run the resolver on\<close>

text \<open>
  An engine whose state counts the steps made. The dice never move; in step number
  \<open>settleStep\<close> every die reports \<^verbatim>\<open>sleep\<close>, lying with face 2 up (\<open>z\<close>-angle \<open>\<pi>/2\<close>). With
  \<open>settleStep = 0\<close> no die ever sleeps. Every draw of the generator is \<open>1/2\<close>.
\<close>

definition stepEnv :: "nat \<Rightarrow> (nat \<Rightarrow> real) \<Rightarrow> nat env" where
  "stepEnv settleStep clock =
     \<lparr>worldStep = (\<lambda>w bodies. (w + 1, bodies, if w + 1 = settleStep then [0..<length bodies] else [])),
      applyImpulse = (\<lambda>w dIdx b impulse point. (w, b\<lparr>velocity := impulse\<rparr>)),
      toEuler = (\<lambda>q. Vec3 0 0 (pi / 2)),
      setFromEuler = (\<lambda>e. Quat 0 0 0 1),
      seedrandom = (\<lambda>sd. rng_half),
      performance_now = clock,
      math_random_seed = (\<lambda>k. ''fresh'')\<rparr>"

text \<open>A clock that stands still, and one on which every reading is two seconds after the one
  before.\<close>

definition clock_still :: "nat \<Rightarrow> real" where
  "clock_still k = 0"

definition clock_slow :: "nat \<Rightarrow> real" where
  "clock_slow k = 2000 * real k"

definition restBody :: body where
  "restBody = \<lparr>position = Vec3 0 0 0, quaternion = Quat 0 0 0 1, velocity = Vec3 0 0 0,
                angularVelocity = Vec3 0 0 0, allowSleep = True\<rparr>"

text \<open>The module state before the first roll of one die.\<close>

definition oneDie :: "nat sim" where
  "oneDie = \<lparr>rollResult = [], simulationRecord = [], simulationWorld = 0,
              simulationDiceArray = [restBody], numberOfDice = 1, simulationResult = [],
              console = [], clockReads = 0, randomReads = 0, seed = [], retryCount = 0,
              rngReads = 0, numSlept = 0, eventHandlers = [], listeners = [],
              lastPositions = [], simulationStart = 0, i_steps = 0\<rparr>"

text \<open>The same module state when the engine has made one step before.\<close>

definition oneDieLater :: "nat sim" where
  "oneDieLater = oneDie\<lparr>simulationWorld := 1\<rparr>"



subsection \<open>Notions used to state the resolver's properties\<close>

text \<open>
  The shape of the face array for \<open>n\<close> dice: a die whose handler is still in
  \<^verbatim>\<open>eventHandlers\<close> (it has not settled) holds the variant's initial value, every other die
  holds a face between 1 and 6.
\<close>

definition faceShape :: "variant \<Rightarrow> nat \<Rightarrow> 'w sim \<Rightarrow> bool" where
  "faceShape v n s \<longleftrightarrow>
     length (rollResult s) = n \<and> length (eventHandlers s) = n \<and>
     list_all (\<lambda>d. if eventHandlers s ! d then rollResult s ! d = initialFace v
                    else 1 \<le> rollResult s ! d \<and> rollResult s ! d \<le> 6) [0..<n]"

text \<open>The engine returns as many dice as it was given.\<close>

definition keepsDice :: "'w env \<Rightarrow> bool" where
  "keepsDice env \<longleftrightarrow> (\<forall>w bodies. length (fst (snd (worldStep env w bodies))) = length bodies)"

text \<open>The clock passes every time: after any number of readings, some later reading is
  beyond any given instant.\<close>

definition clockAdvances :: "'w env \<Rightarrow> bool" where
  "clockAdvances env \<longleftrightarrow> (\<forall>c T. \<exists>k\<ge>c. T < performance_now env k)"

text \<open>The number of stuck warnings and timeout errors on the console.\<close>

definition alarms :: "'w sim \<Rightarrow> nat" where
  "alarms s = length (filter isAlarm (console s))"

text \<open>The stuck check of the loop body, on the state after the step: a detection window
  ends, it is not the first one, no die has moved or is moving, and a retry is left.\<close>

definition stuckNow :: "variant \<Rightarrow> 'w sim \<Rightarrow> bool" where
  "stuckNow v t \<longleftrightarrow>
     stuckDetection v \<and> i_steps t mod stuckDetectionSteps = 0 \<and> lastPositions t \<noteq> []
     \<and> allStuck (map position (simulationDiceArray t)) (map velocity (simulationDiceArray t))
          (lastPositions t)
     \<and> retryCount t < retryLimit v"

text \<open>What the loop keeps of a state \<open>s\<close> in a later state \<open>t\<close>: the shape of the face array, the
  number of dice, the retry count, and, until the next clock reading, the clock.\<close>

definition keeps :: "variant \<Rightarrow> nat \<Rightarrow> 'w sim \<Rightarrow> 'w sim \<Rightarrow> bool" where
  "keeps v n s t \<longleftrightarrow>
     faceShape v n t \<and> length (simulationDiceArray t) = n \<and> numberOfDice t = numberOfDice s
     \<and> retryCount t = retryCount s \<and> clockReads t = clockReads s
     \<and> simulationStart t = simulationStart s"

text \<open>What a returned state looks like.\<close>

definition returned :: "variant \<Rightarrow> nat \<Rightarrow> 'w sim \<Rightarrow> bool" where
  "returned v n r \<longleftrightarrow> faceShape v n r \<and> simulationRecord r \<noteq> []"

text \<open>Two environments with the same engine, conversions and seeded generator: they may
  differ in the clock and in \<^verbatim>\<open>Math.random()\<close>.\<close>

definition sameEngine :: "'w env \<Rightarrow> 'w env \<Rightarrow> bool" where
  "sameEngine env env' \<longleftrightarrow>
     worldStep env' = worldStep env \<and> applyImpulse env' = applyImpulse env
     \<and> toEuler env' = toEuler env \<and> setFromEuler env' = setFromEuler env
     \<and> seedrandom env' = seedrandom env"

text \<open>\<open>reclock t s\<close> is \<open>s\<close> with the console, the stream counters and the start time of
  \<open>t\<close>; two states are the same run when they differ in nothing else.\<close>

definition reclock :: "'w sim \<Rightarrow> 'w sim \<Rightarrow> 'w sim" where
  "reclock t s = s\<lparr>console := console t, clockReads := clockReads t,
                    randomReads := randomReads t, simulationStart := simulationStart t\<rparr>"

definition sameRun :: "'w sim \<Rightarrow> 'w sim \<Rightarrow> bool" where
  "sameRun s t \<longleftrightarrow> t = reclock t s"

text \<open>A clock on which every reading is one millisecond after the one before.\<close>

definition clock_ms :: "nat \<Rightarrow> real" where
  "clock_ms k = real k"


section \<open>Playback: \<^verbatim>\<open>renderSimulation\<close>\<close>

text \<open>
  The model follows \<^verbatim>\<open>part_000\<close>, which has both playback modes. \<^verbatim>\<open>part_001\<close> is its
  interpolated mode with frames stored without a duration; \<^verbatim>\<open>src/main.ts\<close> has neither a
  generation token nor frame export and is modelled separately below.

  \<^verbatim>\<open>Vector3.copy\<close> and \<^verbatim>\<open>Quaternion.copy\<close> copy components into the receiving object, so
  a mesh never shares a vector or quaternion with the record; posing a mesh is the
  assignment of two values.
\<close>

text \<open>\<^verbatim>\<open>Vector3.lerpVectors\<close>, and \<^verbatim>\<open>clamp\<close> of three.js.\<close>

definition lerpVectors :: "vec3 \<Rightarrow> vec3 \<Rightarrow> real \<Rightarrow> vec3" where
  "lerpVectors v1 v2 alpha =
     Vec3 (vx v1 + (vx v2 - vx v1) * alpha) (vy v1 + (vy v2 - vy v1) * alpha)
          (vz v1 + (vz v2 - vz v1) * alpha)"

definition clamp :: "int \<Rightarrow> int \<Rightarrow> int \<Rightarrow> int" where
  "clamp value lo hi = max lo (min hi value)"

text \<open>An element of \<^verbatim>\<open>storedFrames\<close>. The picture \<^verbatim>\<open>canvas.toDataURL\<close> encodes is the scene as
  it was last rendered; the model keeps the poses of the meshes in its place.\<close>

record storedFrame =
  duration :: "real option"
  frame :: "object3d list"

text \<open>The fields of \<^verbatim>\<open>params\<close> the playback reads.\<close>

record params =
  magic :: bool
  desiredRolls :: "nat list"
  storeFrames :: bool
  renderFixedFrames :: bool

text \<open>The module state the playback works on. \<open>rendered\<close> lists the scenes passed to
  \<^verbatim>\<open>renderer.render\<close>, oldest first. A generation token (a \<^verbatim>\<open>Symbol\<close>) is a number; a
  fresh one is the successor of the current one.\<close>

record display =
  meshArray :: "object3d list"
  renderId :: nat
  storedFrames :: "storedFrame list"
  params :: params
  rendered :: "object3d list list"

text \<open>What one call of \<^verbatim>\<open>renderSimulation\<close> closes over: the roll outcome, the token \<^verbatim>\<open>id\<close>,
  and the three locals.\<close>

record playback = rollOutcome +
  id_token :: nat
  start :: real
  lastFrameTime :: real
  fixedFrameIdx :: nat

text \<open>Indexing a JavaScript array: \<^verbatim>\<open>undefined\<close> outside the array.\<close>

definition jsIndex :: "'a list \<Rightarrow> int \<Rightarrow> 'a option" where
  "jsIndex xs k = (if 0 \<le> k \<and> k < int (length xs) then Some (xs ! nat k) else None)"

text \<open>
  \<^verbatim>\<open>meshArray.forEach\<close> copying one sample into the meshes. Reading a pose of an absent
  sample, or of a die the sample does not have, throws.
\<close>

definition copySample :: "(vec3 \<times> quat) list option \<Rightarrow> object3d list \<Rightarrow> error + object3d list" where
  "copySample smp meshes =
     (if meshes = [] then Inr []
      else case smp of
        None \<Rightarrow> Inl TypeError
      | Some poses \<Rightarrow>
          if length poses < length meshes then Inl TypeError
          else Inr (map (\<lambda>(mesh, (p, q)). mesh\<lparr>position := p, quaternion := q\<rparr>) (zip meshes poses)))"

text \<open>\<^verbatim>\<open>meshArray.forEach\<close> interpolating between two samples. \<open>slerp a b t\<close> is
  \<^verbatim>\<open>a.slerp(b, t)\<close> of three.js, a parameter of the model.\<close>

definition blendSamples ::
  "(quat \<Rightarrow> quat \<Rightarrow> real \<Rightarrow> quat) \<Rightarrow> (vec3 \<times> quat) list \<Rightarrow> (vec3 \<times> quat) list \<Rightarrow> real
    \<Rightarrow> object3d list \<Rightarrow> error + object3d list" where
  "blendSamples slerp si sj alpha meshes =
     (if length si < length meshes \<or> length sj < length meshes then Inl TypeError
      else Inr (map (\<lambda>(mesh, ((pi, qi), (pj, qj))).
                      mesh\<lparr>position := lerpVectors pi pj alpha, quaternion := slerp qi qj alpha\<rparr>)
                  (zip meshes (zip si sj))))"

text \<open>
  \<^verbatim>\<open>makeDesired(mesh, rollResult[i], params.desiredRolls[i])\<close>, where either argument is
  \<^verbatim>\<open>undefined\<close> when its array is too short: two \<^verbatim>\<open>undefined\<close> are equal, and one
  \<^verbatim>\<open>undefined\<close> matches no branch, which leaves the initial axis and angle.
\<close>

definition makeDesiredAt :: "object3d \<Rightarrow> nat option \<Rightarrow> nat option \<Rightarrow> object3d" where
  "makeDesiredAt mesh actual desired =
     (case (actual, desired) of
        (Some a, Some d) \<Rightarrow> makeDesired mesh a d
      | (None, None) \<Rightarrow> mesh
      | _ \<Rightarrow> mesh\<lparr>quaternion := multiply (quaternion mesh)
                        (setFromAxisAngle (normalizeVec (Vec3 1 0 0)) (pi / 2))\<rparr>)"

definition correctAll :: "nat list \<Rightarrow> nat list \<Rightarrow> object3d list \<Rightarrow> object3d list" where
  "correctAll actuals desireds meshes =
     map (\<lambda>(i, mesh). makeDesiredAt mesh (jsIndex actuals (int i)) (jsIndex desireds (int i)))
         (zip [0..<length meshes] meshes)"

text \<open>The end of the callback, from \<^verbatim>\<open>if (params.magic)\<close> on: the correction, the render,
  the export and \<^verbatim>\<open>lastFrameTime = now\<close>. \<open>again\<close> says whether the callback has asked for
  another animation frame.\<close>

definition present :: "real \<Rightarrow> display \<times> playback \<Rightarrow> bool \<Rightarrow> display \<times> playback \<times> bool" where
  "present now dp again =
     (case dp of (d, p) \<Rightarrow>
        (let meshes = (if magic (params d)
                       then correctAll (rollResult p) (desiredRolls (params d)) (meshArray d)
                       else meshArray d);
             d1 = d\<lparr>meshArray := meshes, rendered := rendered d @ [meshes]\<rparr>;
             d2 = (if storeFrames (params d) then
                     (let frames0 = storedFrames d1;
                          frames1 = (if \<not> renderFixedFrames (params d) \<and> frames0 \<noteq> []
                                     then butlast frames0
                                          @ [(last frames0)\<lparr>duration := Some (now - lastFrameTime p)\<rparr>]
                                     else frames0);
                          frames2 = frames1 @ [\<lparr>duration = None, frame = meshes\<rparr>];
                          frames3 = (if renderFixedFrames (params d)
                                     then butlast frames2
                                          @ [(last frames2)\<lparr>duration := Some (1 / 60 * 1000)\<rparr>]
                                     else frames2)
                      in d1\<lparr>storedFrames := frames3\<rparr>)
                   else d1)
         in (d2, p\<lparr>lastFrameTime := now\<rparr>, again)))"

text \<open>The fractional step index of the interpolated mode and the two sample indices.\<close>

definition stepAt :: "playback \<Rightarrow> real \<Rightarrow> real" where
  "stepAt p now = ((now - start p) / 1000) * 60"

definition lowerIndex :: "playback \<Rightarrow> real \<Rightarrow> int" where
  "lowerIndex p now = clamp \<lfloor>stepAt p now\<rfloor> 0 (int (length (simulationRecord p)) - 1)"

definition upperIndex :: "playback \<Rightarrow> real \<Rightarrow> int" where
  "upperIndex p now = \<lceil>stepAt p now\<rceil>"

text \<open>
  One run of the callback \<^verbatim>\<open>renderHelper\<close> at clock reading \<open>now\<close>: the new module state,
  the new locals, and whether \<^verbatim>\<open>requestAnimationFrame(renderHelper)\<close> was called; or the
  exception that ended it.
\<close>

definition renderHelper ::
  "(quat \<Rightarrow> quat \<Rightarrow> real \<Rightarrow> quat) \<Rightarrow> real \<Rightarrow> display \<times> playback
    \<Rightarrow> error + display \<times> playback \<times> bool" where
  "renderHelper slerp now dp =
     (case dp of (d, p) \<Rightarrow>
        if renderFixedFrames (params d) then
          (case copySample (jsIndex (simulationRecord p) (int (fixedFrameIdx p))) (meshArray d) of
             Inl e \<Rightarrow> Inl e
           | Inr meshes \<Rightarrow>
               (let d1 = d\<lparr>meshArray := meshes\<rparr>;
                    again = (id_token p = renderId d)
                in if int (fixedFrameIdx p) \<ge> int (length (simulationRecord p)) - 1
                   then Inr (d1, p, again)
                   else Inr (present now (d1, p\<lparr>fixedFrameIdx := fixedFrameIdx p + 1\<rparr>) again)))
        else
          (let step = stepAt p now;
               i = lowerIndex p now;
               j = upperIndex p now
           in case jsIndex (simulationRecord p) j of
                Some sj \<Rightarrow>
                  (case blendSamples slerp (simulationRecord p ! nat i) sj (step - real_of_int i)
                          (meshArray d) of
                     Inl e \<Rightarrow> Inl e
                   | Inr meshes \<Rightarrow>
                       Inr (present now (d\<lparr>meshArray := meshes\<rparr>, p) (id_token p = renderId d)))
              | None \<Rightarrow>
                  (case copySample (jsIndex (simulationRecord p) i) (meshArray d) of
                     Inl e \<Rightarrow> Inl e
                   | Inr meshes \<Rightarrow> Inr (present now (d\<lparr>meshArray := meshes\<rparr>, p) False))))"

text \<open>The callback of \<^verbatim>\<open>src/main.ts\<close>: no modes, no token, no export.\<close>

definition renderHelper_main ::
  "(quat \<Rightarrow> quat \<Rightarrow> real \<Rightarrow> quat) \<Rightarrow> real \<Rightarrow> display \<times> playback
    \<Rightarrow> error + display \<times> playback \<times> bool" where
  "renderHelper_main slerp now dp =
     (case dp of (d, p) \<Rightarrow>
        (let step = stepAt p now;
             i = lowerIndex p now;
             j = upperIndex p now;
             show = (\<lambda>meshes again.
               (let meshes' = (if magic (params d)
                               then correctAll (rollResult p) (desiredRolls (params d)) meshes
                               else meshes)
                in (d\<lparr>meshArray := meshes', rendered := rendered d @ [meshes']\<rparr>, p, again)))
         in case jsIndex (simulationRecord p) j of
              Some sj \<Rightarrow>
                (case blendSamples slerp (simulationRecord p ! nat i) sj (step - real_of_int i)
                        (meshArray d) of
                   Inl e \<Rightarrow> Inl e
                 | Inr meshes \<Rightarrow> Inr (show meshes True))
            | None \<Rightarrow>
                (case copySample (jsIndex (simulationRecord p) i) (meshArray d) of
                   Inl e \<Rightarrow> Inl e
                 | Inr meshes \<Rightarrow> Inr (show meshes False))))"

text \<open>
  \<^verbatim>\<open>renderSimulation\<close> itself: it reads the clock, empties \<^verbatim>\<open>storedFrames\<close> and runs the
  callback once. \<open>start\<close> and \<open>now\<close> are the two clock readings. \<^verbatim>\<open>throwDice\<close> draws a
  fresh token before it calls \<^verbatim>\<open>renderSimulation\<close> with it.
\<close>

definition renderSimulation ::
  "(quat \<Rightarrow> quat \<Rightarrow> real \<Rightarrow> quat) \<Rightarrow> real \<Rightarrow> real \<Rightarrow> nat list \<times> (vec3 \<times> quat) list list \<Rightarrow> nat
    \<Rightarrow> display \<Rightarrow> error + display \<times> playback \<times> bool" where
  "renderSimulation slerp start0 now outcome tok d =
     renderHelper slerp now
       (d\<lparr>storedFrames := []\<rparr>,
        \<lparr>rollResult = fst outcome, simulationRecord = snd outcome, id_token = tok,
         start = start0, lastFrameTime = start0, fixedFrameIdx = 0\<rparr>)"

definition newToken :: "display \<Rightarrow> display" where
  "newToken d = d\<lparr>renderId := Suc (renderId d)\<rparr>"

text \<open>
  The chain of callbacks that the browser runs, one per animation frame, at the clock
  readings given: it goes on while the callback asks for another frame. The last component
  of the result says whether the last callback run asked for one more.
\<close>

fun chain ::
  "(quat \<Rightarrow> quat \<Rightarrow> real \<Rightarrow> quat) \<Rightarrow> real list \<Rightarrow> display \<times> playback
    \<Rightarrow> error + display \<times> playback \<times> bool" where
  "chain slerp [] dp = Inr (fst dp, snd dp, True)"
| "chain slerp (now # nows) dp =
     (case renderHelper slerp now dp of
        Inl e \<Rightarrow> Inl e
      | Inr (d', p', again) \<Rightarrow> if again then chain slerp nows (d', p') else Inr (d', p', False))"

text \<open>What a callback did, read off its result.\<close>

definition renders :: "error + display \<times> playback \<times> bool \<Rightarrow> nat" where
  "renders res = (case res of Inl e \<Rightarrow> 0 | Inr (d, p, again) \<Rightarrow> length (rendered d))"

definition exports :: "error + display \<times> playback \<times> bool \<Rightarrow> nat" where
  "exports res = (case res of Inl e \<Rightarrow> 0 | Inr (d, p, again) \<Rightarrow> length (storedFrames d))"

definition asksAgain :: "error + display \<times> playback \<times> bool \<Rightarrow> bool" where
  "asksAgain res = (case res of Inl e \<Rightarrow> False | Inr (d, p, again) \<Rightarrow> again)"

subsection \<open>A playback to run the callback on\<close>

text \<open>One die, a record of two samples a quarter turn apart, frame export switched on, and
  a linear stand-in for \<open>slerp\<close>.\<close>

definition twoSamples :: "(vec3 \<times> quat) list list" where
  "twoSamples = [[(Vec3 0 3 0, Quat 0 0 0 1)], [(Vec3 2 0 0, Quat 0 0 1 1)]]"

definition lerpQuat :: "quat \<Rightarrow> quat \<Rightarrow> real \<Rightarrow> quat" where
  "lerpQuat a b t = Quat (qx a + (qx b - qx a) * t) (qy a + (qy b - qy a) * t)
                         (qz a + (qz b - qz a) * t) (qw a + (qw b - qw a) * t)"

definition screen :: display where
  "screen = \<lparr>meshArray = [\<lparr>position = Vec3 9 9 9, quaternion = Quat 1 0 0 0\<rparr>], renderId = 1,
             storedFrames = [],
             params = \<lparr>magic = False, desiredRolls = [1], storeFrames = True,
                       renderFixedFrames = False\<rparr>,
             rendered = []\<rparr>"

definition session :: "nat \<Rightarrow> playback" where
  "session tok = \<lparr>rollResult = [1], simulationRecord = twoSamples, id_token = tok, start = 0,
                   lastFrameTime = 0, fixedFrameIdx = 0\<rparr>"


text \<open>The same display in fixed-frame mode, and the playback when its index has reached the
  last of the two samples.\<close>

definition screenFixed :: display where
  "screenFixed = screen\<lparr>params := (params screen)\<lparr>renderFixedFrames := True\<rparr>\<rparr>"

definition atLastSample :: "nat \<Rightarrow> playback" where
  "atLastSample tok = (session tok)\<lparr>fixedFrameIdx := 1\<rparr>"

text \<open>The same display with the correction switched on, asking for face 2.\<close>

definition screenMagic :: display where
  "screenMagic = screen\<lparr>params := (params screen)\<lparr>magic := True, desiredRolls := [2]\<rparr>\<rparr>"

subsection \<open>Notions used to state the playback's properties\<close>

text \<open>The meshes a callback leaves behind.\<close>

definition shown :: "error + display \<times> playback \<times> bool \<Rightarrow> object3d list" where
  "shown res = (case res of Inl e \<Rightarrow> [] | Inr (d, p, again) \<Rightarrow> meshArray d)"

text \<open>What is displayed for die \<open>k\<close> when the callback has given its mesh the pose \<open>mesh\<close>: the
  pose itself, or with \<^verbatim>\<open>params.magic\<close> the pose turned by the corrector.\<close>

definition displayedAs :: "display \<Rightarrow> playback \<Rightarrow> nat \<Rightarrow> object3d \<Rightarrow> object3d" where
  "displayedAs d p k mesh =
     (if magic (params d)
      then makeDesiredAt mesh (jsIndex (rollResult p) (int k)) (jsIndex (desiredRolls (params d)) (int k))
      else mesh)"
section \<open>Properties of the classifier\<close>

lemma within_eps_simps:
  "isZero a = within_eps a 0"
  "isHalfPi a = within_eps a (pi / 2)"
  "isMinusHalfPi a = within_eps a (- (pi / 2))"
  "isPiOrMinusPi a = (within_eps a pi \<or> within_eps a (- pi))"
  unfolding isZero_def isHalfPi_def isMinusHalfPi_def isPiOrMinusPi_def within_eps_def eps_def
  by arith+

lemma getFaceUp_refines: "getFaceUp e = getFaceUp_spec e"
  by (simp only: getFaceUp_def getFaceUp_spec_def within_eps_simps)

lemma getFaceUp_canonical:
  "getFaceUp (Vec3 0 y 0) = 1"
  "getFaceUp (Vec3 (pi / 2) y 0) = 4"
  "getFaceUp (Vec3 (- (pi / 2)) y 0) = 3"
  "getFaceUp (Vec3 pi y 0) = 6"
  "getFaceUp (Vec3 (- pi) y 0) = 6"
  "getFaceUp (Vec3 x y (pi / 2)) = 2"
  "getFaceUp (Vec3 x y (- (pi / 2))) = 5"
  using pi_ge_two
  by (simp_all add: getFaceUp_def isZero_def isHalfPi_def isMinusHalfPi_def
        isPiOrMinusPi_def eps_def abs_if)

lemma getFaceUp_between:
  "getFaceUp (Vec3 (pi / 4) y 0) = 0"
  "getFaceUp (Vec3 (- (pi / 4)) y 0) = 0"
  "getFaceUp (Vec3 (3 * pi / 4) y 0) = 0"
  "getFaceUp (Vec3 (- (3 * pi / 4)) y 0) = 0"
  "getFaceUp (Vec3 x y (pi / 4)) = 0"
  "getFaceUp (Vec3 x y (- (pi / 4))) = 0"
  using pi_ge_two
  by (simp_all add: getFaceUp_def isZero_def isHalfPi_def isMinusHalfPi_def
        isPiOrMinusPi_def eps_def abs_if)

text \<open>
  \<^bold>\<open>C1.\<close> For every Euler triple the classifier returns what the specified decision order
  returns, with tolerance 0.1 rad and strict comparisons: \<open>z\<close> near 0 selects by \<open>x\<close>
  (near 0: face 1, near \<open>\<pi>/2\<close>: 4, near \<open>-\<pi>/2\<close>: 3, near \<open>\<plusminus>\<pi>\<close>: 6, else 0); otherwise \<open>z\<close>
  near \<open>\<pi>/2\<close> gives 2, near \<open>-\<pi>/2\<close> gives 5, anything else 0. The six canonical triples
  classify to their faces, whatever the unused \<open>y\<close> angle is, and the triples halfway
  between two neighbouring canonical ones classify as indeterminate.
\<close>

theorem getFaceUp_decision_order:
  "getFaceUp e = getFaceUp_spec e
   \<and> getFaceUp (Vec3 0 y 0) = 1
   \<and> getFaceUp (Vec3 (pi / 2) y 0) = 4
   \<and> getFaceUp (Vec3 (- (pi / 2)) y 0) = 3
   \<and> getFaceUp (Vec3 pi y 0) = 6 \<and> getFaceUp (Vec3 (- pi) y 0) = 6
   \<and> getFaceUp (Vec3 x y (pi / 2)) = 2
   \<and> getFaceUp (Vec3 x y (- (pi / 2))) = 5
   \<and> getFaceUp (Vec3 (pi / 4) y 0) = 0 \<and> getFaceUp (Vec3 (- (pi / 4)) y 0) = 0
   \<and> getFaceUp (Vec3 (3 * pi / 4) y 0) = 0 \<and> getFaceUp (Vec3 (- (3 * pi / 4)) y 0) = 0
   \<and> getFaceUp (Vec3 x y (pi / 4)) = 0 \<and> getFaceUp (Vec3 x y (- (pi / 4))) = 0"
  by (simp only: getFaceUp_canonical getFaceUp_between getFaceUp_refines [symmetric] simp_thms)

theorem getFaceUp_decision_order_witness:
  "getFaceUp (Vec3 (1 / 20) 2 (- (3 / 100))) = 1
   \<and> getFaceUp_spec (Vec3 (1 / 20) 2 (- (3 / 100))) = 1"
proof -
  have "getFaceUp (Vec3 (1 / 20) 2 (- (3 / 100))) = 1"
    by (simp add: getFaceUp_def isZero_def eps_def)
  with getFaceUp_decision_order [of "Vec3 (1 / 20) 2 (- (3 / 100))" 0 0] show ?thesis
    by simp
qed

section \<open>Properties of the corrector\<close>

lemma face_cases:
  "1 \<le> (f::nat) \<Longrightarrow> f \<le> 6 \<Longrightarrow> f = 1 \<or> f = 2 \<or> f = 3 \<or> f = 4 \<or> f = 5 \<or> f = 6"
  by arith

lemma upLocal_multiply: "upLocal (multiply q r) = rotateVec (conjugate r) (upLocal q)"
  by (simp add: upLocal_def rotateVec_def multiply_def conjugate_def Let_def algebra_simps)

lemma axis_angle_values:
  "setFromAxisAngle (normalizeVec (Vec3 0 0 1)) (pi / 2) = Quat 0 0 (sqrt 2 / 2) (sqrt 2 / 2)"
  "setFromAxisAngle (normalizeVec (Vec3 0 0 (- 1))) (pi / 2) = Quat 0 0 (- (sqrt 2 / 2)) (sqrt 2 / 2)"
  "setFromAxisAngle (normalizeVec (Vec3 1 0 0)) (pi / 2) = Quat (sqrt 2 / 2) 0 0 (sqrt 2 / 2)"
  "setFromAxisAngle (normalizeVec (Vec3 (- 1) 0 0)) (pi / 2) = Quat (- (sqrt 2 / 2)) 0 0 (sqrt 2 / 2)"
  "setFromAxisAngle (normalizeVec (Vec3 1 0 0)) pi = Quat 1 0 0 0"
  "setFromAxisAngle (normalizeVec (Vec3 0 0 1)) pi = Quat 0 0 1 0"
  "setFromAxisAngle (normalizeVec (Vec3 1 0 1)) pi = Quat (1 / sqrt 2) 0 (1 / sqrt 2) 0"
  "setFromAxisAngle (normalizeVec (Vec3 1 0 (- 1))) pi = Quat (1 / sqrt 2) 0 (- (1 / sqrt 2)) 0"
  by (simp_all add: setFromAxisAngle_def normalizeVec_def multiplyScalar_def vlength_def Let_def
        sin_45 cos_45)

lemmas corrector_simps =
  rotationQuaternion_def rotationFor_def axis_angle_values faceNormal_def rotateVec_def
  multiply_def conjugate_def Let_def

lemma corrector_from_1:
  "d \<noteq> 1 \<Longrightarrow> 1 \<le> d \<Longrightarrow> d \<le> 6 \<Longrightarrow>
   rotateVec (conjugate (rotationQuaternion 1 d)) (faceNormal 1) = faceNormal d"
  by (drule (1) face_cases) (auto simp: corrector_simps)

lemma corrector_from_2:
  "d \<noteq> 2 \<Longrightarrow> 1 \<le> d \<Longrightarrow> d \<le> 6 \<Longrightarrow>
   rotateVec (conjugate (rotationQuaternion 2 d)) (faceNormal 2) = faceNormal d"
  by (drule (1) face_cases) (auto simp: corrector_simps)

lemma corrector_from_3:
  "d \<noteq> 3 \<Longrightarrow> 1 \<le> d \<Longrightarrow> d \<le> 6 \<Longrightarrow>
   rotateVec (conjugate (rotationQuaternion 3 d)) (faceNormal 3) = faceNormal d"
  by (drule (1) face_cases) (auto simp: corrector_simps)

lemma corrector_from_4:
  "d \<noteq> 4 \<Longrightarrow> 1 \<le> d \<Longrightarrow> d \<le> 6 \<Longrightarrow>
   rotateVec (conjugate (rotationQuaternion 4 d)) (faceNormal 4) = faceNormal d"
  by (drule (1) face_cases) (auto simp: corrector_simps)

lemma corrector_from_5:
  "d \<noteq> 5 \<Longrightarrow> 1 \<le> d \<Longrightarrow> d \<le> 6 \<Longrightarrow>
   rotateVec (conjugate (rotationQuaternion 5 d)) (faceNormal 5) = faceNormal d"
  by (drule (1) face_cases) (auto simp: corrector_simps)

lemma corrector_from_6:
  "d \<noteq> 6 \<Longrightarrow> 1 \<le> d \<Longrightarrow> d \<le> 6 \<Longrightarrow>
   rotateVec (conjugate (rotationQuaternion 6 d)) (faceNormal 6) = faceNormal d"
  by (drule (1) face_cases) (auto simp: corrector_simps)

lemma corrector_table:
  assumes "1 \<le> a" "a \<le> 6" "1 \<le> d" "d \<le> 6" "a \<noteq> d"
  shows "rotateVec (conjugate (rotationQuaternion a d)) (faceNormal a) = faceNormal d"
proof -
  from assms(1,2) consider "a = 1" | "a = 2" | "a = 3" | "a = 4" | "a = 5" | "a = 6"
    using face_cases by blast
  then show ?thesis
  proof cases
    case 1 with assms corrector_from_1 [of d] show ?thesis by simp
  next
    case 2 with assms corrector_from_2 [of d] show ?thesis by simp
  next
    case 3 with assms corrector_from_3 [of d] show ?thesis by simp
  next
    case 4 with assms corrector_from_4 [of d] show ?thesis by simp
  next
    case 5 with assms corrector_from_5 [of d] show ?thesis by simp
  next
    case 6 with assms corrector_from_6 [of d] show ?thesis by simp
  qed
qed

lemma half_angle_square: "sin ((h::real) / 2) * sin (h / 2) = 1 - cos (h / 2) * cos (h / 2)"
  using sin_cos_squared_add [of "h / 2"] by (simp add: power2_eq_square)

lemma sqrt2_mult: "sqrt 2 * (sqrt 2 * (x::real)) = 2 * x"
  by simp

lemma upLocal_faceEuler:
  "1 \<le> f \<Longrightarrow> f \<le> 6 \<Longrightarrow> upLocal (ofEuler (faceEuler f h)) = faceNormal f"
  by (drule (1) face_cases)
     (auto simp: faceEuler_def faceNormal_def upLocal_def ofEuler_def setFromAxisAngle_def
        multiply_def rotateVec_def conjugate_def Let_def sin_45 cos_45 half_angle_square
        sqrt2_mult right_diff_distrib)

lemma getFaceUp_faceEuler:
  assumes "1 \<le> f" "f \<le> 6"
  shows "getFaceUp (faceEuler f h) = f"
proof -
  from assms consider "f = 1" | "f = 2" | "f = 3" | "f = 4" | "f = 5" | "f = 6"
    using face_cases by blast
  then show ?thesis
    by cases (simp_all add: faceEuler_def getFaceUp_canonical)
qed

text \<open>
  \<^bold>\<open>C2.\<close> For equal faces the corrector returns the mesh unchanged. For each of the 30 ordered
  pairs of distinct faces in 1..6, composing the corrector's rotation onto an orientation
  whose up-pointing body direction is the outward normal of face \<open>a\<close> gives an orientation
  whose up-pointing body direction is the outward normal of face \<open>d\<close>, and the position is
  untouched. The normals are those of the classifier: the canonical Euler triple of face
  \<open>f\<close> classifies as \<open>f\<close> and has \<open>faceNormal f\<close> pointing up.
\<close>

theorem makeDesired_shows_desired:
  "makeDesired mesh a a = mesh
   \<and> (1 \<le> f \<and> f \<le> 6 \<longrightarrow>
        getFaceUp (faceEuler f h) = f \<and> upLocal (ofEuler (faceEuler f h)) = faceNormal f)
   \<and> (1 \<le> a \<and> a \<le> 6 \<and> 1 \<le> d \<and> d \<le> 6 \<and> a \<noteq> d
        \<and> upLocal (quaternion mesh) = faceNormal a \<longrightarrow>
        upLocal (quaternion (makeDesired mesh a d)) = faceNormal d
        \<and> position (makeDesired mesh a d) = position mesh)"
proof (intro conjI impI)
  show "makeDesired mesh a a = mesh"
    by (simp add: makeDesired_def)
next
  assume "1 \<le> f \<and> f \<le> 6"
  then show "getFaceUp (faceEuler f h) = f"
    by (simp add: getFaceUp_faceEuler)
next
  assume "1 \<le> f \<and> f \<le> 6"
  then show "upLocal (ofEuler (faceEuler f h)) = faceNormal f"
    by (simp add: upLocal_faceEuler)
next
  assume h: "1 \<le> a \<and> a \<le> 6 \<and> 1 \<le> d \<and> d \<le> 6 \<and> a \<noteq> d
             \<and> upLocal (quaternion mesh) = faceNormal a"
  then have "rotateVec (conjugate (rotationQuaternion a d)) (faceNormal a) = faceNormal d"
    by (simp add: corrector_table)
  with h show "upLocal (quaternion (makeDesired mesh a d)) = faceNormal d"
    by (simp add: makeDesired_def upLocal_multiply)
next
  show "position (makeDesired mesh a d) = position mesh"
    by (simp add: makeDesired_def)
qed

theorem makeDesired_shows_desired_witness:
  "((1::nat) \<le> 1 \<and> (1::nat) \<le> 6 \<and> (1::nat) \<le> 2 \<and> (2::nat) \<le> 6 \<and> (1::nat) \<noteq> 2
    \<and> upLocal (quaternion \<lparr>position = Vec3 0 0 0, quaternion = Quat 0 0 0 1\<rparr>) = faceNormal 1)
   \<and> getFaceUp (faceEuler 3 0) = 3
   \<and> upLocal (ofEuler (faceEuler 3 0)) = faceNormal 3
   \<and> makeDesired \<lparr>position = Vec3 0 0 0, quaternion = Quat 0 0 0 1\<rparr> 1 1
       = \<lparr>position = Vec3 0 0 0, quaternion = Quat 0 0 0 1\<rparr>
   \<and> upLocal (quaternion (makeDesired \<lparr>position = Vec3 0 0 0, quaternion = Quat 0 0 0 1\<rparr> 1 2))
       = faceNormal 2"
proof -
  have up: "upLocal (quaternion \<lparr>position = Vec3 0 0 0, quaternion = Quat 0 0 0 1\<rparr>) = faceNormal 1"
    by (simp add: upLocal_def rotateVec_def multiply_def conjugate_def faceNormal_def)
  with makeDesired_shows_desired
         [of "\<lparr>position = Vec3 0 0 0, quaternion = Quat 0 0 0 1\<rparr>" 1 3 0 2]
  show ?thesis by simp
qed

section \<open>Properties of the scenario generator\<close>

declare attempt.simps [simp del] placeFrom.simps [simp del]
declare attempt_p001.simps [simp del] placeFrom_p001.simps [simp del]












lemma candidate_half: "candidate rng_half k = Vec3 0 (13 / 4) 0"
  by (simp add: candidate_def rng_half_def startHeight_def Let_def)










section \<open>Properties of the roll resolver\<close>

lemma getFaceUp_le6: "getFaceUp e \<le> 6"
  by (simp add: getFaceUp_def)

lemma faceShape_alt:
  "faceShape v n s \<longleftrightarrow>
     length (rollResult s) = n \<and> length (eventHandlers s) = n \<and>
     (\<forall>d<n. if eventHandlers s ! d then rollResult s ! d = initialFace v
            else 1 \<le> rollResult s ! d \<and> rollResult s ! d \<le> 6)"
  by (auto simp: faceShape_def list_all_iff)

lemma faceShape_update:
  assumes "faceShape v n t" "1 \<le> f" "f \<le> 6"
  shows "faceShape v n (t\<lparr>rollResult := (rollResult t)[d := f],
                           eventHandlers := (eventHandlers t)[d := False]\<rparr>)"
  unfolding faceShape_alt
proof (intro conjI allI impI)
  fix da assume "da < n"
  with assms show "if eventHandlers (t\<lparr>rollResult := (rollResult t)[d := f],
                           eventHandlers := (eventHandlers t)[d := False]\<rparr>) ! da
      then rollResult (t\<lparr>rollResult := (rollResult t)[d := f],
                           eventHandlers := (eventHandlers t)[d := False]\<rparr>) ! da = initialFace v
      else 1 \<le> rollResult (t\<lparr>rollResult := (rollResult t)[d := f],
                           eventHandlers := (eventHandlers t)[d := False]\<rparr>) ! da
         \<and> rollResult (t\<lparr>rollResult := (rollResult t)[d := f],
                           eventHandlers := (eventHandlers t)[d := False]\<rparr>) ! da \<le> 6"
    by (cases "da = d") (auto simp: faceShape_alt nth_list_update)
qed (use assms in \<open>simp_all add: faceShape_alt\<close>)

lemma faceShape_eqI:
  "faceShape v n s \<Longrightarrow> rollResult t = rollResult s \<Longrightarrow> eventHandlers t = eventHandlers s \<Longrightarrow>
   faceShape v n t"
  by (auto simp: faceShape_def list_all_iff)

lemma eventHandler_faceShape:
  assumes "faceShape v n t"
  shows "faceShape v n (eventHandler env d t)"
proof -
  define f where "f = getFaceUp (toEuler env (quaternion (simulationDiceArray t ! d)))"
  have f6: "f \<le> 6" unfolding f_def by (rule getFaceUp_le6)
  show ?thesis
  proof (cases "f = 0")
    case True
    show ?thesis
      by (rule faceShape_eqI [OF assms])
         (use True in \<open>simp_all add: eventHandler_def Let_def f_def [symmetric]\<close>)
  next
    case False
    with f6 assms have "faceShape v n (t\<lparr>rollResult := (rollResult t)[d := f],
                           eventHandlers := (eventHandlers t)[d := False]\<rparr>)"
      by (intro faceShape_update) simp_all
    then show ?thesis
      by (rule faceShape_eqI)
         (use False in \<open>simp_all add: eventHandler_def Let_def f_def [symmetric]\<close>)
  qed
qed

lemma eventHandler_fields:
  "length (simulationDiceArray (eventHandler env d t)) = length (simulationDiceArray t)"
  "numberOfDice (eventHandler env d t) = numberOfDice t"
  "retryCount (eventHandler env d t) = retryCount t"
  "clockReads (eventHandler env d t) = clockReads t"
  "simulationStart (eventHandler env d t) = simulationStart t"
  by (simp_all add: eventHandler_def Let_def)

lemma eventHandler_keeps:
  "keeps v n s t \<Longrightarrow> keeps v n s (eventHandler env d t)"
  by (simp add: keeps_def eventHandler_faceShape eventHandler_fields)

lemma dispatchSleep_keeps:
  "keeps v n s t \<Longrightarrow> keeps v n s (dispatchSleep env evs t)"
  by (induction evs arbitrary: t) (simp_all add: eventHandler_keeps)

lemma advance_keeps:
  assumes "keepsDice env" "keeps v n s s"
  shows "keeps v n s (advance env s)"
proof -
  obtain w bodies events where st:
    "worldStep env (simulationWorld s) (simulationDiceArray s) = (w, bodies, events)"
    by (metis prod_cases3)
  from assms(1) have "length (fst (snd (worldStep env (simulationWorld s) (simulationDiceArray s))))
      = length (simulationDiceArray s)"
    unfolding keepsDice_def by blast
  with st have len: "length bodies = length (simulationDiceArray s)"
    by simp
  define s1 where "s1 = s\<lparr>simulationRecord := simulationRecord s @ [sample s], simulationWorld := w,
      simulationDiceArray := bodies\<rparr>"
  define s2 where "s2 = dispatchSleep env events s1"
  from assms(2) have "faceShape v n s" by (simp add: keeps_def)
  then have "faceShape v n s1"
    by (rule faceShape_eqI) (simp_all add: s1_def)
  with assms(2) len have "keeps v n s s1"
    by (simp add: keeps_def s1_def)
  then have f2: "keeps v n s s2"
    unfolding s2_def by (rule dispatchSleep_keeps)
  then have "faceShape v n s2" by (simp add: keeps_def)
  then have "faceShape v n (s2\<lparr>i_steps := i_steps s2 + 1\<rparr>)"
    by (rule faceShape_eqI) simp_all
  with f2 have "keeps v n s (s2\<lparr>i_steps := i_steps s2 + 1\<rparr>)"
    by (simp add: keeps_def)
  moreover from st have "advance env s = s2\<lparr>i_steps := i_steps s2 + 1\<rparr>"
    by (simp add: advance_def Let_def s2_def s1_def)
  ultimately show ?thesis by simp
qed

lemma removeListeners_keeps:
  "rollResult (removeListeners t) = rollResult t"
  "eventHandlers (removeListeners t) = eventHandlers t"
  "simulationDiceArray (removeListeners t) = simulationDiceArray t"
  "numberOfDice (removeListeners t) = numberOfDice t"
  "retryCount (removeListeners t) = retryCount t"
  "clockReads (removeListeners t) = clockReads t"
  "simulationStart (removeListeners t) = simulationStart t"
  "simulationRecord (removeListeners t) = simulationRecord t"
  "console (removeListeners t) = console t"
  by (simp_all add: removeListeners_def)

lemma deadline_Continue:
  "deadline v env t = Continue t' \<Longrightarrow>
   t' = t\<lparr>clockReads := clockReads t + 1\<rparr>
   \<and> \<not> 1000 < performance_now env (clockReads t) - simulationStart t"
  by (simp add: deadline_def Let_def split: if_splits)

lemma deadline_TimedOut:
  "deadline v env t = TimedOut t' \<Longrightarrow>
   rollResult t' = rollResult t \<and> eventHandlers t' = eventHandlers t
   \<and> simulationDiceArray t' = simulationDiceArray t \<and> simulationRecord t' = simulationRecord t
   \<and> 1000 < performance_now env (clockReads t) - simulationStart t"
  by (auto simp: deadline_def Let_def removeListeners_keeps split: if_splits)

lemma deadline_not_Retry: "deadline v env t \<noteq> Retry t'"
  by (simp add: deadline_def Let_def)

lemma deadline_trips:
  "1000 < performance_now env (clockReads t) - simulationStart t \<Longrightarrow>
   \<exists>t'. deadline v env t = TimedOut t'"
  by (simp add: deadline_def Let_def)

lemma iteration_eq:
  "iteration v env s =
     (if stuckNow v (advance env s) then
        Retry ((removeListeners (advance env s))
          \<lparr>console := console (advance env s)
              @ [StuckWarning (i_steps (advance env s)) (seed (advance env s))
                   (retryCount (advance env s) + 1)]\<rparr>)
      else if stuckDetection v \<and> i_steps (advance env s) mod stuckDetectionSteps = 0 then
        deadline v env
          ((advance env s)\<lparr>lastPositions := map position (simulationDiceArray (advance env s))\<rparr>)
      else deadline v env (advance env s))"
  by (simp add: iteration_def Let_def stuckNow_def)

lemma iteration_Continue:
  assumes "keepsDice env" "keeps v n s s" "iteration v env s = Continue s'"
  shows "keeps v n (s\<lparr>clockReads := clockReads s + 1\<rparr>) s'
         \<and> \<not> 1000 < performance_now env (clockReads s) - simulationStart s"
proof -
  define a where "a = advance env s"
  have fa: "keeps v n s a" unfolding a_def using assms(1,2) by (rule advance_keeps)
  then have sa: "faceShape v n a" by (simp add: keeps_def)
  define b where "b = a\<lparr>lastPositions := map position (simulationDiceArray a)\<rparr>"
  have sb: "faceShape v n b" using sa by (rule faceShape_eqI) (simp_all add: b_def)
  from assms(3) consider "deadline v env b = Continue s'" | "deadline v env a = Continue s'"
    by (auto simp: iteration_eq a_def b_def split: if_splits)
  then show ?thesis
  proof cases
    case 1
    from deadline_Continue [OF 1] have s': "s' = b\<lparr>clockReads := clockReads b + 1\<rparr>"
      and no: "\<not> 1000 < performance_now env (clockReads b) - simulationStart b" by simp_all
    have "faceShape v n s'" using sb by (rule faceShape_eqI) (simp_all add: s')
    with fa no show ?thesis by (simp add: keeps_def s' b_def)
  next
    case 2
    from deadline_Continue [OF 2] have s': "s' = a\<lparr>clockReads := clockReads a + 1\<rparr>"
      and no: "\<not> 1000 < performance_now env (clockReads a) - simulationStart a" by simp_all
    have "faceShape v n s'" using sa by (rule faceShape_eqI) (simp_all add: s')
    with fa no show ?thesis by (simp add: keeps_def s')
  qed
qed

lemma iteration_TimedOut:
  assumes "keepsDice env" "keeps v n s s" "iteration v env s = TimedOut s'"
  shows "faceShape v n s'"
proof -
  define a where "a = advance env s"
  have fa: "keeps v n s a" unfolding a_def using assms(1,2) by (rule advance_keeps)
  then have sa: "faceShape v n a" by (simp add: keeps_def)
  define b where "b = a\<lparr>lastPositions := map position (simulationDiceArray a)\<rparr>"
  have sb: "faceShape v n b" using sa by (rule faceShape_eqI) (simp_all add: b_def)
  from assms(3) consider "deadline v env b = TimedOut s'" | "deadline v env a = TimedOut s'"
    by (auto simp: iteration_eq a_def b_def split: if_splits)
  then show ?thesis
  proof cases
    case 1
    show ?thesis using sb by (rule faceShape_eqI) (simp_all add: deadline_TimedOut [OF 1])
  next
    case 2
    show ?thesis using sa by (rule faceShape_eqI) (simp_all add: deadline_TimedOut [OF 2])
  qed
qed

lemma iteration_Retry:
  assumes "keepsDice env" "keeps v n s s" "iteration v env s = Retry s'"
  shows "length (simulationDiceArray s') = n \<and> numberOfDice s' = numberOfDice s
         \<and> retryCount s' = retryCount s \<and> retryCount s < retryLimit v"
proof -
  define a where "a = advance env s"
  have fa: "keeps v n s a" unfolding a_def using assms(1,2) by (rule advance_keeps)
  from assms(3) have "stuckNow v a"
    and s': "s' = (removeListeners a)\<lparr>console := console a
              @ [StuckWarning (i_steps a) (seed a) (retryCount a + 1)]\<rparr>"
    by (auto simp: iteration_eq a_def deadline_not_Retry split: if_splits)
  with fa show ?thesis
    by (simp add: keeps_def stuckNow_def removeListeners_keeps)
qed

lemma setupDie_length:
  "length (fst (snd (setupDie v env rng ps d acc))) = length (fst (snd acc))"
  by (cases acc) (simp add: setupDie_def Let_def split: prod.splits)

lemma fold_setupDie_length:
  "length (fst (snd (fold (setupDie v env rng ps) ds acc))) = length (fst (snd acc))"
  by (induction ds arbitrary: acc) (simp_all add: setupDie_length)

lemma prepare_fields:
  "rollResult (prepare v env sa rc m) = map (\<lambda>_. initialFace v) (simulationDiceArray m)"
  "eventHandlers (prepare v env sa rc m) = map (\<lambda>_. True) (simulationDiceArray m)"
  "listeners (prepare v env sa rc m) = map (\<lambda>_. True) (simulationDiceArray m)"
  "numberOfDice (prepare v env sa rc m) = numberOfDice m"
  "retryCount (prepare v env sa rc m) = rc"
  "simulationRecord (prepare v env sa rc m) = []"
  "numSlept (prepare v env sa rc m) = 0"
  "console (prepare v env sa rc m) = console m"
  "clockReads (prepare v env sa rc m) = clockReads m + 1"
  "simulationStart (prepare v env sa rc m) = performance_now env (clockReads m)"
  "seed (prepare v env sa rc m) =
     (if seedReassigned v
      then (case sa of Some sd \<Rightarrow> sd | None \<Rightarrow> math_random_seed env (randomReads m))
      else (case sa of Some sd \<Rightarrow> sd | None \<Rightarrow> ''undefined''))"
  by (simp_all add: prepare_def Let_def split: prod.splits)

lemma prepare_length:
  "length (simulationDiceArray (prepare v env sa rc m)) = length (simulationDiceArray m)"
proof -
  define g where "g = seedrandom env
      (case sa of Some sd \<Rightarrow> sd | None \<Rightarrow> math_random_seed env (randomReads m))"
  define np where "np = (if positionsGenerated v then numberOfDice m
                          else length (simulationDiceArray m))"
  obtain ps k where p: "place v np g 0 = (ps, k)"
    by (metis surj_pair)
  obtain w bodies k' where f: "fold (setupDie v env g ps)
      [0..<length (simulationDiceArray m)] (simulationWorld m, simulationDiceArray m, k) = (w, bodies, k')"
    by (metis prod_cases3)
  from fold_setupDie_length [of v env g ps "[0..<length (simulationDiceArray m)]"
      "(simulationWorld m, simulationDiceArray m, k)"] f
  have "length bodies = length (simulationDiceArray m)"
    by simp
  with p f show ?thesis
    by (simp add: prepare_def Let_def g_def [symmetric] np_def [symmetric])
qed

lemma prepare_faceShape:
  "faceShape v (length (simulationDiceArray m)) (prepare v env sa rc m)"
  by (simp add: faceShape_def prepare_fields list_all_iff)

lemma prepare_keeps:
  "keeps v (length (simulationDiceArray m)) (prepare v env sa rc m) (prepare v env sa rc m)"
  by (simp add: keeps_def prepare_faceShape prepare_length)

lemma finish_fields:
  "rollResult (finish env s) = rollResult s"
  "eventHandlers (finish env s) = eventHandlers s"
  "simulationRecord (finish env s) = simulationRecord s @ [sample s]"
  by (simp_all add: finish_def)

lemma finish_returned: "faceShape v n s \<Longrightarrow> returned v n (finish env s)"
  unfolding returned_def
  by (intro conjI, rule faceShape_eqI [of v n s]) (simp_all add: finish_fields)

lemma retryThrow_keeps:
  assumes "length (simulationDiceArray t) = n"
  shows "keeps v n (retryThrow v env t) (retryThrow v env t)"
    and "numberOfDice (retryThrow v env t) = numberOfDice t"
    and "retryCount (retryThrow v env t) = retryCount t + 1"
proof -
  have "length (simulationDiceArray (t\<lparr>randomReads := randomReads t + 1\<rparr>)) = n"
    using assms by simp
  with prepare_keeps [of v "t\<lparr>randomReads := randomReads t + 1\<rparr>" env]
  show "keeps v n (retryThrow v env t) (retryThrow v env t)"
    by (simp add: retryThrow_def)
  show "numberOfDice (retryThrow v env t) = numberOfDice t"
    by (simp add: retryThrow_def prepare_fields)
  show "retryCount (retryThrow v env t) = retryCount t + 1"
    by (simp add: retryThrow_def prepare_fields)
qed

lemma loop_step:
  assumes kd: "keepsDice env" and fr: "keeps v n t t"
    and cont: "\<And>t'. iteration v env t = Continue t' \<Longrightarrow> \<exists>r. loop v env t' = Some r \<and> returned v n r"
    and retr: "\<And>t'. iteration v env t = Retry t' \<Longrightarrow>
                 \<exists>r. loop v env (retryThrow v env t') = Some r \<and> returned v n r"
  shows "\<exists>r. loop v env t = Some r \<and> returned v n r"
proof (cases "numSlept t < numberOfDice t")
  case False
  from fr have "faceShape v n t" by (simp add: keeps_def)
  then have "returned v n (finish env t)" by (rule finish_returned)
  with False show ?thesis by (subst loop.simps) simp
next
  case True
  show ?thesis
  proof (cases "iteration v env t")
    case (Continue t')
    with True cont [OF Continue] show ?thesis by (subst loop.simps) simp
  next
    case (Retry t')
    with True retr [OF Retry] show ?thesis by (subst loop.simps) simp
  next
    case (TimedOut t')
    from iteration_TimedOut [OF kd fr TimedOut] have "returned v n (finish env t')"
      by (rule finish_returned)
    with True TimedOut show ?thesis by (subst loop.simps) simp
  qed
qed

lemma loop_total:
  assumes kd: "keepsDice env" and ca: "clockAdvances env"
  shows "keeps v n s s \<Longrightarrow> numberOfDice s = n \<Longrightarrow> \<exists>r. loop v env s = Some r \<and> returned v n r"
proof (induction "retryLimit v - retryCount s" arbitrary: s rule: less_induct)
  case less
  have retr: "\<exists>r. loop v env (retryThrow v env t') = Some r \<and> returned v n r"
    if t: "keeps v n t t" "numberOfDice t = n" "retryCount t = retryCount s"
      and it: "iteration v env t = Retry t'" for t t'
  proof -
    from iteration_Retry [OF kd t(1) it] t
    have len: "length (simulationDiceArray t') = n" and nd: "numberOfDice t' = n"
      and rc: "retryCount t' = retryCount s" and lt: "retryCount s < retryLimit v"
      by simp_all
    from retryThrow_keeps [OF len, of v env] nd rc lt
    show ?thesis
      by (intro less.hyps) simp_all
  qed
  have inner: "keeps v n t t \<Longrightarrow> numberOfDice t = n \<Longrightarrow> retryCount t = retryCount s \<Longrightarrow>
      (\<exists>k\<ge>clockReads t. k \<le> clockReads t + j \<and> 1000 < performance_now env k - simulationStart t) \<Longrightarrow>
      \<exists>r. loop v env t = Some r \<and> returned v n r" for j t
  proof (induction j arbitrary: t)
    case 0
    then have trip: "1000 < performance_now env (clockReads t) - simulationStart t"
      by auto
    show ?case
    proof (rule loop_step [OF kd "0.prems"(1)])
      fix t' assume "iteration v env t = Continue t'"
      from iteration_Continue [OF kd "0.prems"(1) this] trip
      show "\<exists>r. loop v env t' = Some r \<and> returned v n r" by simp
    next
      fix t' assume "iteration v env t = Retry t'"
      with "0.prems" show "\<exists>r. loop v env (retryThrow v env t') = Some r \<and> returned v n r"
        by (intro retr [of t]) simp_all
    qed
  next
    case (Suc j)
    show ?case
    proof (rule loop_step [OF kd Suc.prems(1)])
      fix t' assume c: "iteration v env t = Continue t'"
      from iteration_Continue [OF kd Suc.prems(1) c]
      have fr: "keeps v n (t\<lparr>clockReads := clockReads t + 1\<rparr>) t'"
        and no: "\<not> 1000 < performance_now env (clockReads t) - simulationStart t"
        by simp_all
      from Suc.prems(4) obtain k where k: "k \<ge> clockReads t" "k \<le> clockReads t + Suc j"
        "1000 < performance_now env k - simulationStart t" by blast
      with no have "k \<noteq> clockReads t" by auto
      with k fr have "\<exists>k\<ge>clockReads t'. k \<le> clockReads t' + j
          \<and> 1000 < performance_now env k - simulationStart t'"
        by (intro exI [of _ k]) (simp add: keeps_def)
      moreover from fr have "keeps v n t' t'" by (simp add: keeps_def)
      moreover from fr Suc.prems have "numberOfDice t' = n" "retryCount t' = retryCount s"
        by (simp_all add: keeps_def)
      ultimately show "\<exists>r. loop v env t' = Some r \<and> returned v n r"
        by (intro Suc.IH)
    next
      fix t' assume "iteration v env t = Retry t'"
      with Suc.prems show "\<exists>r. loop v env (retryThrow v env t') = Some r \<and> returned v n r"
        by (intro retr [of t]) simp_all
    qed
  qed
  from ca obtain k where k: "k \<ge> clockReads s" "1000 + simulationStart s < performance_now env k"
    unfolding clockAdvances_def by blast
  then have "\<exists>k'\<ge>clockReads s. k' \<le> clockReads s + (k - clockReads s)
      \<and> 1000 < performance_now env k' - simulationStart s"
    by (intro exI [of _ k]) simp
  with less.prems show ?case
    by (intro inner [of s "k - clockReads s"]) simp_all
qed

lemma eventHandler_reclock:
  "eventHandler env d (reclock t s) = reclock t (eventHandler env d s)"
  by (simp add: eventHandler_def reclock_def Let_def)

lemma dispatchSleep_reclock:
  "dispatchSleep env evs (reclock t s) = reclock t (dispatchSleep env evs s)"
proof (induction evs arbitrary: s)
  case Nil
  show ?case by simp
next
  case (Cons d evs)
  have "listeners (reclock t s) = listeners s"
    "simulationDiceArray (reclock t s) = simulationDiceArray s"
    by (simp_all add: reclock_def)
  then show ?case
    by (simp add: Cons.IH eventHandler_reclock)
qed

lemma advance_unfold:
  "worldStep env (simulationWorld s) (simulationDiceArray s) = (w, bodies, events) \<Longrightarrow>
   advance env s =
     (dispatchSleep env events
        (s\<lparr>simulationRecord := simulationRecord s @ [sample s], simulationWorld := w,
           simulationDiceArray := bodies\<rparr>))
     \<lparr>i_steps := i_steps (dispatchSleep env events
        (s\<lparr>simulationRecord := simulationRecord s @ [sample s], simulationWorld := w,
           simulationDiceArray := bodies\<rparr>)) + 1\<rparr>"
  by (simp add: advance_def Let_def)

lemma advance_reclock:
  "advance env (reclock t s) = reclock t (advance env s)"
proof -
  obtain w bodies events where st:
    "worldStep env (simulationWorld s) (simulationDiceArray s) = (w, bodies, events)"
    by (metis prod_cases3)
  define s1 where "s1 = s\<lparr>simulationRecord := simulationRecord s @ [sample s],
          simulationWorld := w, simulationDiceArray := bodies\<rparr>"
  define u where "u = dispatchSleep env events s1"
  have st': "worldStep env (simulationWorld (reclock t s)) (simulationDiceArray (reclock t s))
      = (w, bodies, events)"
    using st by (simp add: reclock_def)
  have r1: "(reclock t s)\<lparr>simulationRecord := simulationRecord (reclock t s) @ [sample (reclock t s)],
          simulationWorld := w, simulationDiceArray := bodies\<rparr> = reclock t s1"
    by (simp add: reclock_def sample_def s1_def)
  have "advance env (reclock t s)
      = (dispatchSleep env events (reclock t s1))
          \<lparr>i_steps := i_steps (dispatchSleep env events (reclock t s1)) + 1\<rparr>"
    by (simp only: advance_unfold [OF st'] r1)
  also have "\<dots> = (reclock t u)\<lparr>i_steps := i_steps (reclock t u) + 1\<rparr>"
    by (simp only: dispatchSleep_reclock u_def)
  also have "\<dots> = reclock t (u\<lparr>i_steps := i_steps u + 1\<rparr>)"
    by (simp add: reclock_def)
  also have "u\<lparr>i_steps := i_steps u + 1\<rparr> = advance env s"
    by (simp only: advance_unfold [OF st] u_def s1_def)
  finally show ?thesis .
qed

lemma eventHandler_sameEngine:
  "sameEngine env env' \<Longrightarrow> eventHandler env' d s = eventHandler env d s"
  by (simp add: eventHandler_def sameEngine_def)

lemma dispatchSleep_sameEngine:
  "sameEngine env env' \<Longrightarrow> dispatchSleep env' evs s = dispatchSleep env evs s"
  by (induction evs arbitrary: s) (simp_all add: eventHandler_sameEngine)

lemma advance_sameEngine:
  "sameEngine env env' \<Longrightarrow> advance env' s = advance env s"
  by (simp add: advance_def dispatchSleep_sameEngine) (simp add: sameEngine_def)


lemma eventHandler_console: "console (eventHandler env d s) = console s"
  by (simp add: eventHandler_def Let_def)

lemma dispatchSleep_console: "console (dispatchSleep env evs s) = console s"
  by (induction evs arbitrary: s) (simp_all add: eventHandler_console)

lemma advance_console: "console (advance env s) = console s"
proof -
  obtain w bodies events where st:
    "worldStep env (simulationWorld s) (simulationDiceArray s) = (w, bodies, events)"
    by (metis prod_cases3)
  show ?thesis
    by (simp add: advance_unfold [OF st] dispatchSleep_console)
qed

lemma alarms_simps:
  "alarms (finish env s) = alarms s"
  "alarms (prepare v env sa rc s) = alarms s"
  "alarms (retryThrow v env s) = alarms s"
  "alarms (advance env s) = alarms s"
  "alarms (reclock t s) = alarms t"
  by (simp_all add: alarms_def finish_def prepare_fields retryThrow_def advance_console reclock_def)

lemma deadline_alarms:
  "deadline v env t = Continue t' \<Longrightarrow> alarms t' = alarms t"
  "deadline v env t = TimedOut t' \<Longrightarrow> alarms t' = alarms t + 1"
  by (auto simp: deadline_def Let_def alarms_def removeListeners_keeps split: if_splits)

lemma iteration_alarms:
  "iteration v env s = Continue s' \<Longrightarrow> alarms s' = alarms s"
  "iteration v env s = Retry s' \<Longrightarrow> alarms s' = alarms s + 1"
  "iteration v env s = TimedOut s' \<Longrightarrow> alarms s' = alarms s + 1"
proof -
  have a: "alarms ((advance env s)\<lparr>lastPositions := p\<rparr>) = alarms s" for p
    by (simp add: alarms_def advance_console)
  have b: "alarms (advance env s) = alarms s" by (simp add: alarms_simps)
  show "iteration v env s = Continue s' \<Longrightarrow> alarms s' = alarms s"
    using a b by (auto simp: iteration_eq split: if_splits dest!: deadline_alarms(1))
  show "iteration v env s = Retry s' \<Longrightarrow> alarms s' = alarms s + 1"
    by (auto simp: iteration_eq deadline_not_Retry alarms_def removeListeners_keeps advance_console
          split: if_splits)
  show "iteration v env s = TimedOut s' \<Longrightarrow> alarms s' = alarms s + 1"
    using a b by (auto simp: iteration_eq split: if_splits dest!: deadline_alarms(2))
qed

lemma sameRun_reclock: "sameRun s (reclock t s)"
  by (simp add: sameRun_def reclock_def)

lemma sameRun_fields:
  assumes "sameRun s t"
  shows "numSlept t = numSlept s" "numberOfDice t = numberOfDice s"
    "rollResult t = rollResult s" "simulationRecord t = simulationRecord s"
    "simulationDiceArray t = simulationDiceArray s"
proof -
  from assms have t: "t = reclock t s" by (simp add: sameRun_def)
  show "numSlept t = numSlept s" by (subst t) (simp add: reclock_def)
  show "numberOfDice t = numberOfDice s" by (subst t) (simp add: reclock_def)
  show "rollResult t = rollResult s" by (subst t) (simp add: reclock_def)
  show "simulationRecord t = simulationRecord s" by (subst t) (simp add: reclock_def)
  show "simulationDiceArray t = simulationDiceArray s" by (subst t) (simp add: reclock_def)
qed

lemma stuckNow_reclock: "stuckNow v (reclock t a) = stuckNow v a"
  by (simp add: stuckNow_def reclock_def)

lemma deadline_sameRun:
  assumes "sameRun a b"
  shows "(\<exists>b'. deadline v env' b = Continue b' \<and> (\<forall>a'. deadline v env a = Continue a' \<longrightarrow> sameRun a' b'))
         \<or> (\<exists>b'. deadline v env' b = TimedOut b')"
proof -
  from assms have b: "b = reclock b a" by (simp add: sameRun_def)
  show ?thesis
  proof (cases "1000 < performance_now env' (clockReads b) - simulationStart b")
    case True
    then show ?thesis by (simp add: deadline_def Let_def)
  next
    case False
    then have d: "deadline v env' b = Continue (b\<lparr>clockReads := clockReads b + 1\<rparr>)"
      by (simp add: deadline_def Let_def)
    have "sameRun a' (b\<lparr>clockReads := clockReads b + 1\<rparr>)" if "deadline v env a = Continue a'" for a'
    proof -
      from deadline_Continue [OF that] have a': "a' = a\<lparr>clockReads := clockReads a + 1\<rparr>" by simp
      have "b\<lparr>clockReads := clockReads b + 1\<rparr> = (reclock b a)\<lparr>clockReads := clockReads b + 1\<rparr>"
        using b by simp
      also have "\<dots> = reclock (b\<lparr>clockReads := clockReads b + 1\<rparr>) a'"
        by (simp add: reclock_def a')
      finally show ?thesis by (simp add: sameRun_def)
    qed
    with d show ?thesis by simp
  qed
qed


lemma iteration_sameRun:
  assumes se: "sameEngine env env'" and sr: "sameRun s t"
    and c: "iteration v env s = Continue s'"
  shows "(\<exists>t'. iteration v env' t = Continue t' \<and> sameRun s' t')
         \<or> (\<exists>t'. iteration v env' t = TimedOut t')"
proof -
  define a where "a = advance env s"
  define b where "b = advance env' t"
  from sr have t: "t = reclock t s" by (simp add: sameRun_def)
  have "b = advance env t" unfolding b_def using se by (rule advance_sameEngine)
  also have "\<dots> = advance env (reclock t s)" using t by simp
  also have "\<dots> = reclock t a" by (simp add: advance_reclock a_def)
  finally have b: "b = reclock t a" .
  then have ab: "sameRun a b" by (simp add: sameRun_reclock)
  have sn: "stuckNow v b = stuckNow v a" by (simp add: b stuckNow_reclock)
  have fields: "i_steps b = i_steps a" "simulationDiceArray b = simulationDiceArray a"
    by (simp_all add: b reclock_def)
  from c have nos: "\<not> stuckNow v a"
    by (auto simp: iteration_eq a_def split: if_splits)
  show ?thesis
  proof (cases "stuckDetection v \<and> i_steps a mod stuckDetectionSteps = 0")
    case True
    define p where "p = map position (simulationDiceArray a)"
    from True nos c have da: "deadline v env (a\<lparr>lastPositions := p\<rparr>) = Continue s'"
      by (simp add: iteration_eq a_def p_def)
    from True nos sn fields have it: "iteration v env' t = deadline v env' (b\<lparr>lastPositions := p\<rparr>)"
      by (simp add: iteration_eq b_def p_def)
    have "console b = console t" "clockReads b = clockReads t" "randomReads b = randomReads t"
      "simulationStart b = simulationStart t"
      by (simp_all add: b reclock_def)
    then have "b\<lparr>lastPositions := p\<rparr> = reclock (b\<lparr>lastPositions := p\<rparr>) (a\<lparr>lastPositions := p\<rparr>)"
      by (subst b) (simp add: reclock_def)
    then have "sameRun (a\<lparr>lastPositions := p\<rparr>) (b\<lparr>lastPositions := p\<rparr>)"
      by (simp add: sameRun_def)
    from deadline_sameRun [OF this, of v env' env] da it show ?thesis
      by auto
  next
    case False
    with nos c have da: "deadline v env a = Continue s'"
      by (auto simp: iteration_eq a_def split: if_splits)
    from False nos sn fields have it: "iteration v env' t = deadline v env' b"
      by (auto simp: iteration_eq b_def split: if_splits)
    from deadline_sameRun [OF ab, of v env' env] da it show ?thesis
      by auto
  qed
qed

lemma finish_sameRun:
  "sameRun s t \<Longrightarrow> rollResult (finish env' t) = rollResult (finish env s)
     \<and> simulationRecord (finish env' t) = simulationRecord (finish env s)"
  by (simp add: finish_fields sameRun_fields sample_def)

lemma loop_done:
  "\<not> numSlept s < numberOfDice s \<Longrightarrow> loop v env s = Some (finish env s)"
  by (subst loop.simps) simp

lemma loop_Continue:
  "numSlept s < numberOfDice s \<Longrightarrow> iteration v env s = Continue s' \<Longrightarrow>
   loop v env s = loop v env s'"
  by (subst loop.simps) simp


lemma loop_TimedOut:
  "numSlept s < numberOfDice s \<Longrightarrow> iteration v env s = TimedOut s' \<Longrightarrow>
   loop v env s = Some (finish env s')"
  by (subst loop.simps) simp

text \<open>Runs that log no alarm agree, whatever their clocks and fresh seeds.\<close>

lemma loop_clean_agree:
  assumes "loop v env s = Some r"
  shows "alarms s \<le> alarms r \<and>
    (\<forall>env' t r'. sameEngine env env' \<longrightarrow> sameRun s t \<longrightarrow> alarms r = alarms s \<longrightarrow>
        loop v env' t = Some r' \<longrightarrow> alarms r' = alarms t \<longrightarrow>
        rollResult r' = rollResult r \<and> simulationRecord r' = simulationRecord r)"
proof (rule loop.raw_induct [where P = "\<lambda>v env s r. alarms s \<le> alarms r \<and>
    (\<forall>env' t r'. sameEngine env env' \<longrightarrow> sameRun s t \<longrightarrow> alarms r = alarms s \<longrightarrow>
        loop v env' t = Some r' \<longrightarrow> alarms r' = alarms t \<longrightarrow>
        rollResult r' = rollResult r \<and> simulationRecord r' = simulationRecord r)", OF _ assms],
    goal_cases)
  case (1 loop' v env s r)
  note IH = "1"(1) and body = "1"(2)
  show ?case
  proof (cases "numSlept s < numberOfDice s")
    case False
    with body have r: "r = finish env s" by simp
    have mono: "alarms s \<le> alarms r" by (simp add: r alarms_simps)
    have "rollResult r' = rollResult r \<and> simulationRecord r' = simulationRecord r"
      if sr: "sameRun s t" and l: "loop v env' t = Some r'" for env' t r'
    proof -
      from False sr have "\<not> numSlept t < numberOfDice t" by (simp add: sameRun_fields)
      from loop_done [OF this, of v env'] l have "r' = finish env' t" by simp
      with finish_sameRun [OF sr, of env' env] r show ?thesis by simp
    qed
    with mono show ?thesis by blast
  next
    case True
    show ?thesis
    proof (cases "iteration v env s")
      case (Continue s')
      with True body have l': "loop' v env s' = Some r" by simp
      have as': "alarms s' = alarms s" using Continue by (rule iteration_alarms)
      from IH [OF l'] have mono': "alarms s' \<le> alarms r"
        and agree: "\<And>env' t r'. sameEngine env env' \<Longrightarrow> sameRun s' t \<Longrightarrow> alarms r = alarms s' \<Longrightarrow>
          loop v env' t = Some r' \<Longrightarrow> alarms r' = alarms t \<Longrightarrow>
          rollResult r' = rollResult r \<and> simulationRecord r' = simulationRecord r"
        by blast+
      have "rollResult r' = rollResult r \<and> simulationRecord r' = simulationRecord r"
        if se: "sameEngine env env'" and sr: "sameRun s t" and cl: "alarms r = alarms s"
          and l: "loop v env' t = Some r'" and cl': "alarms r' = alarms t" for env' t r'
      proof -
        from True sr have lt: "numSlept t < numberOfDice t" by (simp add: sameRun_fields)
        from iteration_sameRun [OF se sr Continue] show ?thesis
        proof
          assume "\<exists>t'. iteration v env' t = Continue t' \<and> sameRun s' t'"
          then obtain t' where it: "iteration v env' t = Continue t'" and sr': "sameRun s' t'"
            by blast
          from loop_Continue [OF lt it] l have l2: "loop v env' t' = Some r'" by simp
          have at': "alarms t' = alarms t" using it by (rule iteration_alarms)
          show ?thesis
          proof (rule agree [OF se sr' _ l2])
            show "alarms r = alarms s'" by (simp only: cl as')
            show "alarms r' = alarms t'" by (simp only: cl' at')
          qed
        next
          assume "\<exists>t'. iteration v env' t = TimedOut t'"
          then obtain t' where it: "iteration v env' t = TimedOut t'" by blast
          from loop_TimedOut [OF lt it] l have "r' = finish env' t'" by simp
          then have "alarms r' = alarms t + 1"
            by (simp add: alarms_simps iteration_alarms(3) [OF it])
          with cl' show ?thesis by simp
        qed
      qed
      moreover from mono' as' have "alarms s \<le> alarms r" by simp
      ultimately show ?thesis by blast
    next
      case (Retry s')
      with True body have l': "loop' v env (retryThrow v env s') = Some r" by simp
      from IH [OF l'] have "alarms (retryThrow v env s') \<le> alarms r" by blast
      with iteration_alarms(2) [OF Retry]
      have "alarms s + 1 \<le> alarms r" by (simp add: alarms_simps)
      then show ?thesis by simp
    next
      case (TimedOut s')
      with True body have "r = finish env s'" by simp
      with iteration_alarms(3) [OF TimedOut] have "alarms r = alarms s + 1"
        by (simp add: alarms_simps)
      then show ?thesis by simp
    qed
  qed
qed

lemma setupDie_sameEngine:
  "sameEngine env env' \<Longrightarrow> setupDie v env' rng ps d acc = setupDie v env rng ps d acc"
  by (simp add: setupDie_def sameEngine_def)

lemma prepare_sameRun:
  assumes se: "sameEngine env env'"
    and w: "simulationWorld m' = simulationWorld m"
    and b: "simulationDiceArray m' = simulationDiceArray m"
    and n: "numberOfDice m' = numberOfDice m"
  shows "sameRun (prepare v env (Some sd) rc m) (prepare v env' (Some sd) rc m')"
proof -
  have sd: "setupDie v env' = setupDie v env"
    using se by (intro ext) (rule setupDie_sameEngine)
  from se have sr: "seedrandom env' = seedrandom env" by (simp add: sameEngine_def)
  define np where "np = (if positionsGenerated v then numberOfDice m
                          else length (simulationDiceArray m))"
  obtain ps k where p: "place v np (seedrandom env sd) 0 = (ps, k)"
    by (metis surj_pair)
  obtain w' bodies k' where f: "fold (setupDie v env (seedrandom env sd) ps)
      [0..<length (simulationDiceArray m)] (simulationWorld m, simulationDiceArray m, k) = (w', bodies, k')"
    by (metis prod_cases3)
  have x: "prepare v env (Some sd) rc m =
      m\<lparr>simulationResult := [], randomReads := randomReads m, seed := sd, retryCount := rc,
        rngReads := k', numSlept := 0, simulationRecord := [],
        rollResult := map (\<lambda>_. initialFace v) (simulationDiceArray m),
        eventHandlers := map (\<lambda>_. True) (simulationDiceArray m),
        listeners := map (\<lambda>_. True) (simulationDiceArray m),
        lastPositions := [], simulationWorld := w', simulationDiceArray := bodies,
        simulationStart := performance_now env (clockReads m),
        clockReads := clockReads m + 1, i_steps := 0\<rparr>"
    using p f by (simp add: prepare_def Let_def np_def [symmetric])
  have y: "prepare v env' (Some sd) rc m' =
      m'\<lparr>simulationResult := [], randomReads := randomReads m', seed := sd, retryCount := rc,
        rngReads := k', numSlept := 0, simulationRecord := [],
        rollResult := map (\<lambda>_. initialFace v) (simulationDiceArray m),
        eventHandlers := map (\<lambda>_. True) (simulationDiceArray m),
        listeners := map (\<lambda>_. True) (simulationDiceArray m),
        lastPositions := [], simulationWorld := w', simulationDiceArray := bodies,
        simulationStart := performance_now env' (clockReads m'),
        clockReads := clockReads m' + 1, i_steps := 0\<rparr>"
    using p f
    by (cases "positionsGenerated v") (simp_all add: prepare_def Let_def np_def sd sr w b n)
  show ?thesis
    unfolding sameRun_def reclock_def x y
    by (rule sim.equality) (simp_all add: n)
qed

lemma simulateThrow_Inr:
  "simulateThrow v env sa rc m = Some (Inr r) \<Longrightarrow> loop v env (prepare v env sa rc m) = Some r"
  by (auto simp: simulateThrow_def split: if_splits)

text \<open>
  \<^bold>\<open>C8, as the code has it.\<close> A run reads the wall clock for its one second deadline and,
  when it restarts after a stuck warning, takes a fresh seed from \<^verbatim>\<open>Math.random()\<close>; neither
  comes from the seeded stream. Nor does it reset the engine: the set-up overwrites the
  position, orientation and velocities of the bodies and leaves the state of the world as
  the throw before left it. What the seed does fix: two runs of \<^verbatim>\<open>simulateThrow\<close> with the same
  seed string and the same engine, entered with the same state of the engine's world, the
  same bodies and the same number of dice, on any two clocks and any two \<^verbatim>\<open>Math.random\<close>
  streams, that both return without a stuck warning or a timeout error on the console,
  return the same face array and the same trajectory record.
\<close>

theorem deterministic_when_clean:
  "sameEngine env env'
   \<and> simulationWorld m' = simulationWorld m \<and> simulationDiceArray m' = simulationDiceArray m
   \<and> numberOfDice m' = numberOfDice m
   \<and> simulateThrow v env (Some sd) rc m = Some (Inr r)
   \<and> simulateThrow v env' (Some sd) rc m' = Some (Inr r')
   \<and> alarms r = alarms m \<and> alarms r' = alarms m'
   \<longrightarrow> rollResult r' = rollResult r \<and> simulationRecord r' = simulationRecord r"
proof
  assume h: "sameEngine env env'
   \<and> simulationWorld m' = simulationWorld m \<and> simulationDiceArray m' = simulationDiceArray m
   \<and> numberOfDice m' = numberOfDice m
   \<and> simulateThrow v env (Some sd) rc m = Some (Inr r)
   \<and> simulateThrow v env' (Some sd) rc m' = Some (Inr r')
   \<and> alarms r = alarms m \<and> alarms r' = alarms m'"
  then have l: "loop v env (prepare v env (Some sd) rc m) = Some r"
    and l': "loop v env' (prepare v env' (Some sd) rc m') = Some r'"
    by (simp_all add: simulateThrow_Inr)
  from h have sr: "sameRun (prepare v env (Some sd) rc m) (prepare v env' (Some sd) rc m')"
    by (intro prepare_sameRun) simp_all
  from h have se: "sameEngine env env'"
    and c: "alarms r = alarms (prepare v env (Some sd) rc m)"
    and c': "alarms r' = alarms (prepare v env' (Some sd) rc m')"
    by (simp_all add: alarms_simps)
  from loop_clean_agree [OF l, THEN conjunct2, rule_format, OF se sr c l' c']
  show "rollResult r' = rollResult r \<and> simulationRecord r' = simulationRecord r" .
qed


lemma gen_one: "generateNonOverlappingPositions 1 rng_half 0 = ([Vec3 0 (13 / 4) 0], 3)"
proof -
  have a0: "attempt rng_half [] 0 0 = (Vec3 0 (13 / 4) 0, True, 3)"
    by (subst attempt.simps) (simp add: Let_def candidate_half farEnough_def)
  show ?thesis
    unfolding generateNonOverlappingPositions_def
    apply (subst placeFrom.simps, simp add: a0)
    apply (subst placeFrom.simps, simp)
    done
qed

lemma prepare_oneDie:
  "prepare part_000 (stepEnv n c) (Some sd) rc oneDie =
     oneDie\<lparr>seed := sd, retryCount := rc, rngReads := 8, rollResult := [1],
       eventHandlers := [True], listeners := [True],
       simulationDiceArray := [restBody\<lparr>position := Vec3 0 (13 / 4) 0, velocity := Vec3 0 (- 8) 0\<rparr>],
       simulationStart := c 0, clockReads := 1\<rparr>"
  by (simp add: prepare_def part_000_def stepEnv_def oneDie_def gen_one [simplified] setupDie_def
        launch_theta_def rng_half_def restBody_def Let_def)

lemmas run_simps = iteration_def advance_def deadline_def finish_def sample_def eventHandler_def
  removeListeners_def stuckDetectionSteps_def Let_def part_000_def stepEnv_def oneDie_def
  restBody_def getFaceUp_canonical alarms_def clock_still_def clock_slow_def clock_ms_def

lemma run_still:
  "\<exists>r. simulateThrow part_000 (stepEnv 2 clock_still) (Some sd) 0 oneDie = Some (Inr r)
           \<and> rollResult r = [2] \<and> length (simulationRecord r) = 3 \<and> alarms r = 0"
  unfolding simulateThrow_def prepare_oneDie
  apply (simp add: oneDie_def)
  apply (subst loop.simps, simp add: run_simps)
  apply (subst loop.simps, simp add: run_simps)
  apply (subst loop.simps, simp add: run_simps)
  done

lemma run_ms:
  "\<exists>r. simulateThrow part_000 (stepEnv 2 clock_ms) (Some sd) 0 oneDie = Some (Inr r)
           \<and> rollResult r = [2] \<and> length (simulationRecord r) = 3 \<and> alarms r = 0"
  unfolding simulateThrow_def prepare_oneDie
  apply (simp add: oneDie_def)
  apply (subst loop.simps, simp add: run_simps)
  apply (subst loop.simps, simp add: run_simps)
  apply (subst loop.simps, simp add: run_simps)
  done

lemma run_slow:
  "\<exists>r. simulateThrow part_000 (stepEnv 2 clock_slow) (Some sd) 0 oneDie = Some (Inr r)
           \<and> rollResult r = [1] \<and> length (simulationRecord r) = 2 \<and> alarms r = 1"
  unfolding simulateThrow_def prepare_oneDie
  apply (simp add: oneDie_def)
  apply (subst loop.simps, simp add: run_simps)
  done

lemma prepare_oneDieLater:
  "prepare part_000 (stepEnv n c) (Some sd) rc oneDieLater =
     oneDieLater\<lparr>seed := sd, retryCount := rc, rngReads := 8, rollResult := [1],
       eventHandlers := [True], listeners := [True],
       simulationDiceArray := [restBody\<lparr>position := Vec3 0 (13 / 4) 0, velocity := Vec3 0 (- 8) 0\<rparr>],
       simulationStart := c 0, clockReads := 1\<rparr>"
  by (simp add: prepare_def part_000_def stepEnv_def oneDieLater_def oneDie_def gen_one [simplified]
        setupDie_def launch_theta_def rng_half_def restBody_def Let_def)

lemma run_later:
  "\<exists>r. simulateThrow part_000 (stepEnv 2 clock_still) (Some sd) 0 oneDieLater = Some (Inr r)
           \<and> rollResult r = [2] \<and> length (simulationRecord r) = 2 \<and> alarms r = 0"
  unfolding simulateThrow_def prepare_oneDieLater
  apply (simp add: oneDieLater_def oneDie_def)
  apply (subst loop.simps, simp add: run_simps)
  apply (subst loop.simps, simp add: run_simps)
  done













lemma list_all_faces:
  assumes "faceShape v n r" "1 \<le> initialFace v" "initialFace v \<le> 6"
  shows "list_all (\<lambda>f. 1 \<le> f \<and> f \<le> 6) (rollResult r)"
proof -
  from assms have "\<forall>d<length (rollResult r). 1 \<le> rollResult r ! d \<and> rollResult r ! d \<le> 6"
    by (auto simp: faceShape_alt split: if_splits)
  then show ?thesis
    by (simp add: list_all_length)
qed

lemma main_ts_timeout:
  "map_option (map_sum id rollResult) (simulateThrow main_ts (stepEnv 0 clock_slow) None 0 oneDie)
     = Some (Inr [0])"
proof -
  have p: "prepare main_ts (stepEnv 0 clock_slow) None 0 oneDie =
    oneDie\<lparr>randomReads := 1, seed := ''undefined'', rngReads := 4, rollResult := [0],
       eventHandlers := [True], listeners := [True],
       simulationDiceArray := [restBody\<lparr>velocity := Vec3 (- (11 / 2)) (11 / 2) 0\<rparr>],
       clockReads := 1\<rparr>"
    by (simp add: prepare_def main_ts_def stepEnv_def oneDie_def place_main_def setupDie_def
        launch_main_def rng_half_def restBody_def clock_slow_def Let_def)
  show ?thesis
    unfolding simulateThrow_def p
    apply (simp add: oneDie_def)
    apply (subst loop.simps)
    apply (simp add: iteration_def advance_def main_ts_def stepEnv_def deadline_def
        clock_slow_def finish_def sample_def Let_def)
    done
qed

text \<open>
  \<^bold>\<open>C3.\<close> With an engine that returns the dice it is given and a clock that passes every
  instant, \<^verbatim>\<open>simulateThrow\<close> returns, for every seed argument: the result has one face entry per
  die and at least one sample, an entry of a settled die is a face from 1 to 6 and an entry
  of a die not settled at the deadline is the value the array was filled with. That value is
  1 in \<^verbatim>\<open>part_000\<close> and \<^verbatim>\<open>part_001\<close>, so there every entry is a face from 1 to 6. It is 0 in
  \<^verbatim>\<open>src/main.ts\<close>: the throw of one die that has not settled when the deadline passes
  returns the face array \<open>[0]\<close>.
\<close>

theorem simulateThrow_total:
  "(keepsDice env \<and> clockAdvances env \<and> numberOfDice m = length (simulationDiceArray m) \<longrightarrow>
     (\<exists>r. simulateThrow v env seedArg rc m = Some (Inr r)
        \<and> faceShape v (numberOfDice m) r
        \<and> simulationRecord r \<noteq> []
        \<and> (1 \<le> initialFace v \<and> initialFace v \<le> 6 \<longrightarrow>
              list_all (\<lambda>f. 1 \<le> f \<and> f \<le> 6) (rollResult r))))
   \<and> initialFace part_000 = 1 \<and> initialFace part_001 = 1 \<and> initialFace main_ts = 0
   \<and> map_option (map_sum id rollResult)
        (simulateThrow main_ts (stepEnv 0 clock_slow) None 0 oneDie) = Some (Inr [0])"
proof (intro conjI impI)
  assume h: "keepsDice env \<and> clockAdvances env \<and> numberOfDice m = length (simulationDiceArray m)"
  define n where "n = numberOfDice m"
  have fr: "keeps v n (prepare v env seedArg rc m) (prepare v env seedArg rc m)"
    using h prepare_keeps [of v m env seedArg rc] by (simp add: n_def)
  have nd: "numberOfDice (prepare v env seedArg rc m) = n"
    by (simp add: prepare_fields n_def)
  from h loop_total [OF _ _ fr nd] obtain r
    where r: "loop v env (prepare v env seedArg rc m) = Some r" "returned v n r"
    by blast
  from r(1) h have "simulateThrow v env seedArg rc m = Some (Inr r)"
    by (simp add: simulateThrow_def)
  moreover from r(2) have "faceShape v n r" "simulationRecord r \<noteq> []"
    by (simp_all add: returned_def)
  ultimately show "\<exists>r. simulateThrow v env seedArg rc m = Some (Inr r)
        \<and> faceShape v (numberOfDice m) r
        \<and> simulationRecord r \<noteq> []
        \<and> (1 \<le> initialFace v \<and> initialFace v \<le> 6 \<longrightarrow>
              list_all (\<lambda>f. 1 \<le> f \<and> f \<le> 6) (rollResult r))"
    using list_all_faces [of v n r] by (auto simp: n_def)
next
  show "map_option (map_sum id rollResult)
        (simulateThrow main_ts (stepEnv 0 clock_slow) None 0 oneDie) = Some (Inr [0])"
    by (rule main_ts_timeout)
qed (simp_all add: part_000_def part_001_def main_ts_def)

lemma keepsDice_stepEnv: "keepsDice (stepEnv n c)"
  by (simp add: keepsDice_def stepEnv_def)

lemma clockAdvances_slow: "clockAdvances (stepEnv n clock_slow)"
  unfolding clockAdvances_def
proof (intro allI)
  fix c :: nat and T :: real
  obtain j :: nat where j: "T < real j" using reals_Archimedean2 by blast
  have "real j \<le> 2000 * real (max c j)" by simp
  with j have "T < performance_now (stepEnv n clock_slow) (max c j)"
    by (simp add: stepEnv_def clock_slow_def)
  then show "\<exists>k\<ge>c. T < performance_now (stepEnv n clock_slow) k"
    by (intro exI [of _ "max c j"]) simp
qed

theorem simulateThrow_total_witness:
  "keepsDice (stepEnv 2 clock_slow) \<and> clockAdvances (stepEnv 2 clock_slow)
   \<and> numberOfDice oneDie = length (simulationDiceArray oneDie)
   \<and> (\<exists>r. simulateThrow part_000 (stepEnv 2 clock_slow) (Some ''abc'') 0 oneDie = Some (Inr r)
          \<and> faceShape part_000 (numberOfDice oneDie) r
          \<and> list_all (\<lambda>f. 1 \<le> f \<and> f \<le> 6) (rollResult r))"
proof -
  have n: "numberOfDice oneDie = length (simulationDiceArray oneDie)"
    by (simp add: oneDie_def)
  with simulateThrow_total [of "stepEnv 2 clock_slow" oneDie part_000 "Some ''abc''" 0]
    keepsDice_stepEnv [of 2 clock_slow] clockAdvances_slow [of 2]
  show ?thesis by auto
qed

lemma sameEngine_stepEnv: "sameEngine (stepEnv n c) (stepEnv n c')"
  by (simp add: sameEngine_def stepEnv_def)

theorem deterministic_when_clean_witness:
  "sameEngine (stepEnv 2 clock_still) (stepEnv 2 clock_ms)
   \<and> (\<exists>r r'. simulateThrow part_000 (stepEnv 2 clock_still) (Some ''abc'') 0 oneDie = Some (Inr r)
        \<and> simulateThrow part_000 (stepEnv 2 clock_ms) (Some ''abc'') 0 oneDie = Some (Inr r')
        \<and> alarms r = alarms oneDie \<and> alarms r' = alarms oneDie
        \<and> rollResult r' = rollResult r \<and> simulationRecord r' = simulationRecord r)"
proof -
  from run_still [of "''abc''"] obtain r where
    r: "simulateThrow part_000 (stepEnv 2 clock_still) (Some ''abc'') 0 oneDie = Some (Inr r)"
      "alarms r = 0" by blast
  from run_ms [of "''abc''"] obtain r' where
    r': "simulateThrow part_000 (stepEnv 2 clock_ms) (Some ''abc'') 0 oneDie = Some (Inr r')"
      "alarms r' = 0" by blast
  have a: "alarms oneDie = 0" by (simp add: alarms_def oneDie_def)
  from deterministic_when_clean [of "stepEnv 2 clock_still" "stepEnv 2 clock_ms" oneDie oneDie
      part_000 "''abc''" 0 r r'] r r' a sameEngine_stepEnv [of 2 clock_still clock_ms]
  have "rollResult r' = rollResult r \<and> simulationRecord r' = simulationRecord r"
    by simp
  with r r' a sameEngine_stepEnv [of 2 clock_still clock_ms]
  show ?thesis by auto
qed

text \<open>
  \<^bold>\<open>C8, as the claim words it, fails.\<close> The same seed, state and engine on two clocks: on the
  clock that stands still the die settles and shows 2; on the clock that jumps two seconds
  per reading the deadline passes first, and the result is the fallback 1 with a shorter
  record. And the same seed, engine and clock from two states of the world, the second one
  step after the first: both runs end without a warning, with records of different length.
\<close>

theorem deterministic_counterexample:
  "sameEngine (stepEnv 2 clock_still) (stepEnv 2 clock_slow)
   \<and> map_option (map_sum id rollResult)
        (simulateThrow part_000 (stepEnv 2 clock_still) (Some ''abc'') 0 oneDie) = Some (Inr [2])
   \<and> map_option (map_sum id rollResult)
        (simulateThrow part_000 (stepEnv 2 clock_slow) (Some ''abc'') 0 oneDie) = Some (Inr [1])
   \<and> map_option (map_sum id (\<lambda>r. length (simulationRecord r)))
        (simulateThrow part_000 (stepEnv 2 clock_still) (Some ''abc'') 0 oneDie) = Some (Inr 3)
   \<and> map_option (map_sum id (\<lambda>r. length (simulationRecord r)))
        (simulateThrow part_000 (stepEnv 2 clock_slow) (Some ''abc'') 0 oneDie) = Some (Inr 2)
   \<and> map_option (map_sum id (\<lambda>r. length (simulationRecord r)))
        (simulateThrow part_000 (stepEnv 2 clock_still) (Some ''abc'') 0 oneDieLater) = Some (Inr 2)
   \<and> map_option (map_sum id alarms)
        (simulateThrow part_000 (stepEnv 2 clock_still) (Some ''abc'') 0 oneDie) = Some (Inr 0)
   \<and> map_option (map_sum id alarms)
        (simulateThrow part_000 (stepEnv 2 clock_still) (Some ''abc'') 0 oneDieLater) = Some (Inr 0)"
proof -
  from run_still [of "''abc''"] obtain r where
    "simulateThrow part_000 (stepEnv 2 clock_still) (Some ''abc'') 0 oneDie = Some (Inr r)"
    "rollResult r = [2]" "length (simulationRecord r) = 3" "alarms r = 0" by blast
  moreover from run_slow [of "''abc''"] obtain r' where
    "simulateThrow part_000 (stepEnv 2 clock_slow) (Some ''abc'') 0 oneDie = Some (Inr r')"
    "rollResult r' = [1]" "length (simulationRecord r') = 2" by blast
  moreover from run_later [of "''abc''"] obtain r'' where
    "simulateThrow part_000 (stepEnv 2 clock_still) (Some ''abc'') 0 oneDieLater = Some (Inr r'')"
    "length (simulationRecord r'') = 2" "alarms r'' = 0" by blast
  ultimately show ?thesis
    by (simp add: sameEngine_stepEnv)
qed
section \<open>Properties of the playback\<close>

lemma present_fields:
  "present now (d, p) again = (d', p', again') \<Longrightarrow>
   again' = again \<and> p' = p\<lparr>lastFrameTime := now\<rparr> \<and> renderId d' = renderId d
   \<and> params d' = params d
   \<and> meshArray d' = (if magic (params d)
                       then correctAll (rollResult p) (desiredRolls (params d)) (meshArray d)
                       else meshArray d)
   \<and> rendered d' = rendered d @ [meshArray d']
   \<and> length (storedFrames d') = length (storedFrames d) + (if storeFrames (params d) then 1 else 0)"
  by (auto simp: present_def Let_def split: if_splits)

lemma correctAll_length: "length (correctAll as ds ms) = length ms"
  by (simp add: correctAll_def)

lemma correctAll_nth:
  "k < length ms \<Longrightarrow>
   correctAll as ds ms ! k = makeDesiredAt (ms ! k) (jsIndex as (int k)) (jsIndex ds (int k))"
  by (simp add: correctAll_def)

lemma copySample_nth:
  "copySample (Some poses) ms = Inr ms' \<Longrightarrow>
   length ms' = length ms \<and>
   (\<forall>k<length ms. ms' ! k = (ms ! k)\<lparr>position := fst (poses ! k), quaternion := snd (poses ! k)\<rparr>)"
  by (auto simp: copySample_def split: if_splits prod.splits)

lemma copySample_None: "copySample None ms = Inr ms' \<Longrightarrow> ms = [] \<and> ms' = []"
  by (auto simp: copySample_def split: if_splits)

lemma blendSamples_nth:
  "blendSamples slerp si sj alpha ms = Inr ms' \<Longrightarrow>
   length ms' = length ms \<and>
   (\<forall>k<length ms. ms' ! k = (ms ! k)\<lparr>position := lerpVectors (fst (si ! k)) (fst (sj ! k)) alpha,
                                    quaternion := slerp (snd (si ! k)) (snd (sj ! k)) alpha\<rparr>)"
  by (auto simp: blendSamples_def split: if_splits prod.splits)

lemma renderHelper_interp:
  assumes "\<not> renderFixedFrames (params d)" "renderHelper slerp now (d, p) = Inr (d', p', again)"
  shows "jsIndex (simulationRecord p) (upperIndex p now) = Some sj \<Longrightarrow>
          \<exists>ms. blendSamples slerp (simulationRecord p ! nat (lowerIndex p now)) sj
                  (stepAt p now - real_of_int (lowerIndex p now)) (meshArray d) = Inr ms
             \<and> present now (d\<lparr>meshArray := ms\<rparr>, p) (id_token p = renderId d) = (d', p', again)"
    and "jsIndex (simulationRecord p) (upperIndex p now) = None \<Longrightarrow>
          \<exists>ms. copySample (jsIndex (simulationRecord p) (lowerIndex p now)) (meshArray d) = Inr ms
             \<and> present now (d\<lparr>meshArray := ms\<rparr>, p) False = (d', p', again)"
  using assms by (auto simp: renderHelper_def Let_def split: sum.splits)

lemma posed_eq: "(m::object3d)\<lparr>position := a, quaternion := b\<rparr> = \<lparr>position = a, quaternion = b\<rparr>"
  by simp

lemma present_mesh:
  assumes "present now (d\<lparr>meshArray := ms\<rparr>, p) a = (d', p', again)" "k < length ms"
  shows "meshArray d' ! k = displayedAs d p k (ms ! k)" "length (meshArray d') = length ms"
    "again = a" "last (rendered d') = meshArray d'"
  using present_fields [OF assms(1)] assms(2)
  by (auto simp: displayedAs_def correctAll_nth correctAll_length)

lemma renderHelper_main_eq:
  assumes "\<not> storeFrames (params d)" "\<not> renderFixedFrames (params d)"
  shows "renderHelper_main slerp now (d, p) =
     (case renderHelper slerp now (d, p) of
        Inl e \<Rightarrow> Inl e
      | Inr (d', p', again) \<Rightarrow>
          Inr (d', p, jsIndex (simulationRecord p) (upperIndex p now) \<noteq> None))"
  using assms
  by (auto simp: renderHelper_main_def renderHelper_def present_def Let_def
        split: sum.splits option.splits)

lemma renderHelper_main_again:
  "renderHelper_main slerp now (d, p) = Inr (d', p', again) \<Longrightarrow>
   again = (jsIndex (simulationRecord p) (upperIndex p now) \<noteq> None) \<and> p' = p"
  by (auto simp: renderHelper_main_def Let_def split: sum.splits option.splits)

lemma copySample_total:
  "length ms \<le> length poses \<Longrightarrow> \<exists>ms'. copySample (Some poses) ms = Inr ms'"
  by (simp add: copySample_def)

lemma blendSamples_total:
  "length ms \<le> length si \<Longrightarrow> length ms \<le> length sj \<Longrightarrow>
   \<exists>ms'. blendSamples slerp si sj alpha ms = Inr ms'"
  by (simp add: blendSamples_def)

lemma lowerIndex_range:
  "simulationRecord p \<noteq> [] \<Longrightarrow>
   0 \<le> lowerIndex p now \<and> lowerIndex p now < int (length (simulationRecord p))"
  by (auto simp: lowerIndex_def clamp_def)

lemma renderHelper_total:
  assumes ne: "simulationRecord p \<noteq> []"
    and wide: "list_all (\<lambda>smp. length (meshArray d) \<le> length smp) (simulationRecord p)"
    and idx: "fixedFrameIdx p < length (simulationRecord p)"
  shows "\<exists>res. renderHelper slerp now (d, p) = Inr res"
proof -
  have w: "length (meshArray d) \<le> length (simulationRecord p ! n)" if "n < length (simulationRecord p)" for n
    using wide that by (simp add: list_all_length)
  show ?thesis
  proof (cases "renderFixedFrames (params d)")
    case True
    from idx have "jsIndex (simulationRecord p) (int (fixedFrameIdx p))
        = Some (simulationRecord p ! fixedFrameIdx p)"
      by (simp add: jsIndex_def)
    moreover from copySample_total [OF w [OF idx]] obtain ms where
      "copySample (Some (simulationRecord p ! fixedFrameIdx p)) (meshArray d) = Inr ms" by blast
    ultimately show ?thesis using True
      by (simp add: renderHelper_def Let_def del: split_paired_Ex)
  next
    case False
    from lowerIndex_range [OF ne, of now]
    have li: "nat (lowerIndex p now) < length (simulationRecord p)"
      and ji: "jsIndex (simulationRecord p) (lowerIndex p now)
               = Some (simulationRecord p ! nat (lowerIndex p now))"
      by (auto simp: jsIndex_def)
    show ?thesis
    proof (cases "jsIndex (simulationRecord p) (upperIndex p now)")
      case None
      from copySample_total [OF w [OF li]] obtain ms where
        "copySample (Some (simulationRecord p ! nat (lowerIndex p now))) (meshArray d) = Inr ms"
        by blast
      with None False ji show ?thesis
        by (simp add: renderHelper_def Let_def del: split_paired_Ex)
    next
      case (Some sj)
      then have "nat (upperIndex p now) < length (simulationRecord p)"
        and "sj = simulationRecord p ! nat (upperIndex p now)"
        by (auto simp: jsIndex_def split: if_splits)
      with w have "length (meshArray d) \<le> length sj" by simp
      from blendSamples_total [OF w [OF li] this] obtain ms where
        "blendSamples slerp (simulationRecord p ! nat (lowerIndex p now)) sj
           (stepAt p now - real_of_int (lowerIndex p now)) (meshArray d) = Inr ms"
        by blast
      with Some False show ?thesis
        by (simp add: renderHelper_def Let_def del: split_paired_Ex)
    qed
  qed
qed

lemma copySample_forgets:
  "length ms = length ms' \<Longrightarrow> copySample smp (ms :: object3d list) = copySample smp ms'"
proof -
  assume l: "length ms = length ms'"
  have "map (\<lambda>(mesh :: object3d, (p, q)). mesh\<lparr>position := p, quaternion := q\<rparr>) (zip ms poses)
      = map (\<lambda>(mesh :: object3d, (p, q)). mesh\<lparr>position := p, quaternion := q\<rparr>) (zip ms' poses)" for poses
    using l
  proof (induction ms ms' arbitrary: poses rule: list_induct2)
    case Nil
    show ?case by simp
  next
    case (Cons x xs y ys)
    then show ?case by (cases poses) auto
  qed
  with l show ?thesis
    by (auto simp: copySample_def split: option.splits)
qed

lemma blendSamples_forgets:
  "length ms = length ms' \<Longrightarrow>
   blendSamples slerp si sj alpha (ms :: object3d list) = blendSamples slerp si sj alpha ms'"
proof -
  assume l: "length ms = length ms'"
  have "map (\<lambda>(mesh :: object3d, ((pi, qi), (pj, qj))).
                mesh\<lparr>position := lerpVectors pi pj alpha, quaternion := slerp qi qj alpha\<rparr>) (zip ms pairs)
      = map (\<lambda>(mesh :: object3d, ((pi, qi), (pj, qj))).
                mesh\<lparr>position := lerpVectors pi pj alpha, quaternion := slerp qi qj alpha\<rparr>) (zip ms' pairs)"
    for pairs
    using l
  proof (induction ms ms' arbitrary: pairs rule: list_induct2)
    case Nil
    show ?case by simp
  next
    case (Cons x xs y ys)
    then show ?case by (cases pairs) auto
  qed
  with l show ?thesis
    by (simp add: blendSamples_def)
qed

lemma renderHelper_forgets:
  assumes "length ms = length (meshArray d)"
  shows "renderHelper slerp now (d\<lparr>meshArray := ms\<rparr>, p) = renderHelper slerp now (d, p)"
  using copySample_forgets [OF assms] blendSamples_forgets [OF assms, of slerp]
  by (auto simp: renderHelper_def Let_def split: sum.splits option.splits)

lemma renderHelper_closure:
  "renderHelper slerp now (d, p) = Inr (d', p', again) \<Longrightarrow>
   rollResult p' = rollResult p \<and> simulationRecord p' = simulationRecord p
   \<and> id_token p' = id_token p \<and> start p' = start p
   \<and> renderId d' = renderId d \<and> params d' = params d"
  by (auto simp: renderHelper_def present_def Let_def split: sum.splits option.splits if_splits)

lemma renderHelper_stale:
  "id_token p \<noteq> renderId d \<Longrightarrow> renderHelper slerp now (d, p) = Inr (d', p', again) \<Longrightarrow> \<not> again"
  by (auto simp: renderHelper_def present_def Let_def split: sum.splits option.splits if_splits)

lemma renderHelper_terminal:
  assumes "renderFixedFrames (params d)"
    "int (length (simulationRecord p)) - 1 \<le> int (fixedFrameIdx p)"
  shows "renderHelper slerp now (d, p) =
     (case copySample (jsIndex (simulationRecord p) (int (fixedFrameIdx p))) (meshArray d) of
        Inl e \<Rightarrow> Inl e
      | Inr ms \<Rightarrow> Inr (d\<lparr>meshArray := ms\<rparr>, p, id_token p = renderId d))"
  using assms by (simp add: renderHelper_def Let_def split: sum.splits)

lemma renderHelper_presents:
  assumes "\<not> (renderFixedFrames (params d)
              \<and> int (length (simulationRecord p)) - 1 \<le> int (fixedFrameIdx p))"
    "renderHelper slerp now (d, p) = Inr (d', p', again)"
  shows "rendered d' = rendered d @ [meshArray d']
         \<and> length (storedFrames d') = length (storedFrames d) + (if storeFrames (params d) then 1 else 0)"
  using assms
  by (auto simp: renderHelper_def Let_def split: sum.splits option.splits if_splits
        dest!: present_fields)

lemma copySample_length:
  "copySample smp ms = Inr ms' \<Longrightarrow> length ms' = length ms"
  by (auto simp: copySample_def split: if_splits option.splits)

lemma copySample_again:
  assumes "copySample smp (ms :: object3d list) = Inr ms'"
  shows "copySample smp ms' = Inr ms'"
proof -
  from copySample_length [OF assms] have "copySample smp ms' = copySample smp ms"
    by (rule copySample_forgets)
  with assms show ?thesis by simp
qed

lemma chain_terminal:
  assumes fx: "renderFixedFrames (params d)"
    and tm: "int (length (simulationRecord p)) - 1 \<le> int (fixedFrameIdx p)"
    and cur: "id_token p = renderId d"
    and cp: "copySample (jsIndex (simulationRecord p) (int (fixedFrameIdx p))) (meshArray d) = Inr ms"
  shows "chain slerp (now # nows) (d, p) = Inr (d\<lparr>meshArray := ms\<rparr>, p, True)"
proof -
  have step: "renderHelper slerp t (d\<lparr>meshArray := ms\<rparr>, p) = Inr (d\<lparr>meshArray := ms\<rparr>, p, True)" for t
    using renderHelper_terminal [of "d\<lparr>meshArray := ms\<rparr>" p slerp t] fx tm cur
      copySample_again [OF cp]
    by simp
  have rest: "chain slerp ts (d\<lparr>meshArray := ms\<rparr>, p) = Inr (d\<lparr>meshArray := ms\<rparr>, p, True)" for ts
    by (induction ts) (simp_all add: step)
  from renderHelper_terminal [OF fx tm, of slerp now] cp cur
  have "renderHelper slerp now (d, p) = Inr (d\<lparr>meshArray := ms\<rparr>, p, True)" by simp
  with rest [of nows] show ?thesis by simp
qed

lemma makeDesiredAt_position: "position (makeDesiredAt mesh a b) = position mesh"
  by (simp add: makeDesiredAt_def makeDesired_def split: option.splits)

lemma correctAll_position: "map position (correctAll as ds ms) = map position ms"
  by (rule nth_equalityI) (simp_all add: correctAll_length correctAll_nth makeDesiredAt_position)

lemma step_half: "stepAt (session tok) (25 / 3) = 1 / 2"
  by (simp add: stepAt_def session_def)

lemma step_late: "stepAt (session tok) 50 = 3"
  by (simp add: stepAt_def session_def)

lemma session_fields:
  "simulationRecord (session tok) = twoSamples" "id_token (session tok) = tok"
  "rollResult (session tok) = [1]" "fixedFrameIdx (session tok) = 0" "start (session tok) = 0"
  "lastFrameTime (session tok) = 0"
  by (simp_all add: session_def)

lemma ceiling_half: "\<lceil>1 / 2 :: real\<rceil> = 1"
  by (rule ceiling_unique) simp_all

lemma renderHelper_length:
  assumes "renderHelper slerp now (d, p) = Inr (d', p', again)"
  shows "length (meshArray d') = length (meshArray d)"
proof -
  have pl: "length (meshArray (fst (present t (e\<lparr>meshArray := ms\<rparr>, q) a))) = length ms" for t e ms q a
    by (simp add: present_def Let_def correctAll_length)
  have bl: "blendSamples slerp si sj al ms = Inr ms' \<Longrightarrow> length ms' = length ms" for si sj al ms ms'
    by (auto simp: blendSamples_def split: if_splits)
  from assms show ?thesis
    by (auto simp: renderHelper_def Let_def split: sum.splits option.splits if_splits
        dest!: copySample_length bl present_fields simp: correctAll_length)
qed

lemma idx_half:
  "lowerIndex (session tok) (25 / 3) = 0" "upperIndex (session tok) (25 / 3) = 1"
  by (simp_all add: lowerIndex_def upperIndex_def step_half clamp_def ceiling_half)

lemma idx_late:
  "lowerIndex (session tok) 50 = 1" "upperIndex (session tok) 50 = 3"
  by (simp_all add: lowerIndex_def upperIndex_def step_late clamp_def session_fields twoSamples_def)

lemma run_half:
  "renderHelper lerpQuat (25 / 3) (screen, session tok) =
     Inr (screen\<lparr>meshArray := [\<lparr>position = Vec3 1 (3 / 2) 0, quaternion = Quat 0 0 (1 / 2) 1\<rparr>],
                 rendered := [[\<lparr>position = Vec3 1 (3 / 2) 0, quaternion = Quat 0 0 (1 / 2) 1\<rparr>]],
                 storedFrames := [\<lparr>duration = None,
                    frame = [\<lparr>position = Vec3 1 (3 / 2) 0, quaternion = Quat 0 0 (1 / 2) 1\<rparr>]\<rparr>]\<rparr>,
          (session tok)\<lparr>lastFrameTime := 25 / 3\<rparr>, tok = 1)"
  by (simp add: renderHelper_def idx_half step_half jsIndex_def session_fields
      blendSamples_def present_def Let_def lerpVectors_def lerpQuat_def screen_def twoSamples_def)

lemma run_late:
  "renderHelper lerpQuat 50 (screen, session tok) =
     Inr (screen\<lparr>meshArray := [\<lparr>position = Vec3 2 0 0, quaternion = Quat 0 0 1 1\<rparr>],
                 rendered := [[\<lparr>position = Vec3 2 0 0, quaternion = Quat 0 0 1 1\<rparr>]],
                 storedFrames := [\<lparr>duration = None,
                    frame = [\<lparr>position = Vec3 2 0 0, quaternion = Quat 0 0 1 1\<rparr>]\<rparr>]\<rparr>,
          (session tok)\<lparr>lastFrameTime := 50\<rparr>, False)"
  by (simp add: renderHelper_def idx_late jsIndex_def session_fields
      copySample_def present_def Let_def screen_def twoSamples_def)

lemma fixed_first:
  "renderHelper lerpQuat now (screenFixed, session 1) =
     Inr (screenFixed\<lparr>meshArray := [\<lparr>position = Vec3 0 3 0, quaternion = Quat 0 0 0 1\<rparr>],
                 rendered := [[\<lparr>position = Vec3 0 3 0, quaternion = Quat 0 0 0 1\<rparr>]],
                 storedFrames := [\<lparr>duration = Some (1 / 60 * 1000),
                    frame = [\<lparr>position = Vec3 0 3 0, quaternion = Quat 0 0 0 1\<rparr>]\<rparr>]\<rparr>,
          (session 1)\<lparr>fixedFrameIdx := 1, lastFrameTime := now\<rparr>, True)"
  by (simp add: renderHelper_def jsIndex_def copySample_def present_def Let_def screenFixed_def
      screen_def session_def twoSamples_def)

lemma fixed_last:
  assumes "renderFixedFrames (params d)" "length (meshArray d) = 1" "renderId d = 1"
    "fixedFrameIdx p = 1" "simulationRecord p = twoSamples" "id_token p = 1"
  shows "renderHelper lerpQuat now (d, p) =
     Inr (d\<lparr>meshArray := [\<lparr>position = Vec3 2 0 0, quaternion = Quat 0 0 1 1\<rparr>]\<rparr>, p, True)"
proof -
  from assms(2) obtain m where m: "meshArray d = [m]" by (cases "meshArray d") auto
  show ?thesis
    using assms(1,3-)
    by (simp add: renderHelper_def jsIndex_def copySample_def Let_def twoSamples_def m)
qed

lemma interpolated_part000:
  "\<not> renderFixedFrames (params d) \<and> renderHelper slerp now (d, p) = Inr (d', p', again)
   \<and> s = (now - start p) / 1000 * 60
   \<and> i = max 0 (min (int (length (simulationRecord p)) - 1) \<lfloor>s\<rfloor>) \<and> j = \<lceil>s\<rceil>
   \<and> k < length (meshArray d)
   \<longrightarrow>
     (if 0 \<le> j \<and> j < int (length (simulationRecord p)) then
        again = (id_token p = renderId d)
        \<and> meshArray d' ! k = displayedAs d p k
             \<lparr>position = lerpVectors (fst (simulationRecord p ! nat i ! k))
                            (fst (simulationRecord p ! nat j ! k)) (s - real_of_int i),
              quaternion = slerp (snd (simulationRecord p ! nat i ! k))
                            (snd (simulationRecord p ! nat j ! k)) (s - real_of_int i)\<rparr>
      else
        \<not> again
        \<and> meshArray d' ! k = displayedAs d p k
             \<lparr>position = fst (simulationRecord p ! nat i ! k),
              quaternion = snd (simulationRecord p ! nat i ! k)\<rparr>)
     \<and> length (meshArray d') = length (meshArray d)
     \<and> last (rendered d') = meshArray d'
     \<and> rollResult p' = rollResult p \<and> simulationRecord p' = simulationRecord p"
proof
  assume h: "\<not> renderFixedFrames (params d) \<and> renderHelper slerp now (d, p) = Inr (d', p', again)
   \<and> s = (now - start p) / 1000 * 60
   \<and> i = max 0 (min (int (length (simulationRecord p)) - 1) \<lfloor>s\<rfloor>) \<and> j = \<lceil>s\<rceil>
   \<and> k < length (meshArray d)"
  then have s: "s = stepAt p now" and k: "k < length (meshArray d)"
    and i0: "i = max 0 (min (int (length (simulationRecord p)) - 1) \<lfloor>s\<rfloor>)" and j0: "j = \<lceil>s\<rceil>"
    unfolding stepAt_def by blast+
  have i: "i = lowerIndex p now" and j: "j = upperIndex p now"
    unfolding lowerIndex_def upperIndex_def clamp_def s [symmetric] by (rule i0, rule j0)
  from h have nf: "\<not> renderFixedFrames (params d)"
    and rh: "renderHelper slerp now (d, p) = Inr (d', p', again)" by simp_all
  show "(if 0 \<le> j \<and> j < int (length (simulationRecord p)) then
        again = (id_token p = renderId d)
        \<and> meshArray d' ! k = displayedAs d p k
             \<lparr>position = lerpVectors (fst (simulationRecord p ! nat i ! k))
                            (fst (simulationRecord p ! nat j ! k)) (s - real_of_int i),
              quaternion = slerp (snd (simulationRecord p ! nat i ! k))
                            (snd (simulationRecord p ! nat j ! k)) (s - real_of_int i)\<rparr>
      else
        \<not> again
        \<and> meshArray d' ! k = displayedAs d p k
             \<lparr>position = fst (simulationRecord p ! nat i ! k),
              quaternion = snd (simulationRecord p ! nat i ! k)\<rparr>)
     \<and> length (meshArray d') = length (meshArray d)
     \<and> last (rendered d') = meshArray d'
     \<and> rollResult p' = rollResult p \<and> simulationRecord p' = simulationRecord p"
  proof (cases "0 \<le> j \<and> j < int (length (simulationRecord p))")
    case True
    then have ji: "jsIndex (simulationRecord p) (upperIndex p now) = Some (simulationRecord p ! nat j)"
      by (simp add: jsIndex_def j)
    from renderHelper_interp(1) [OF nf rh ji] obtain ms where
      b: "blendSamples slerp (simulationRecord p ! nat i) (simulationRecord p ! nat j)
            (s - real_of_int i) (meshArray d) = Inr ms"
      and pr: "present now (d\<lparr>meshArray := ms\<rparr>, p) (id_token p = renderId d) = (d', p', again)"
      by (auto simp: s i)
    from blendSamples_nth [OF b] k have len: "length ms = length (meshArray d)"
      and msk: "ms ! k = \<lparr>position = lerpVectors (fst (simulationRecord p ! nat i ! k))
                            (fst (simulationRecord p ! nat j ! k)) (s - real_of_int i),
              quaternion = slerp (snd (simulationRecord p ! nat i ! k))
                            (snd (simulationRecord p ! nat j ! k)) (s - real_of_int i)\<rparr>"
      by simp_all
    from k len have k': "k < length ms" by simp
    from present_mesh [OF pr k'] present_fields [OF pr] len msk show ?thesis
      unfolding if_P [OF True] by simp
  next
    case False
    then have ji: "jsIndex (simulationRecord p) (upperIndex p now) = None"
      by (auto simp: jsIndex_def j)
    from renderHelper_interp(2) [OF nf rh ji] obtain ms where
      c: "copySample (jsIndex (simulationRecord p) i) (meshArray d) = Inr ms"
      and pr: "present now (d\<lparr>meshArray := ms\<rparr>, p) False = (d', p', again)"
      by (auto simp: i)
    from k have ne: "meshArray d \<noteq> []" by auto
    with c copySample_None obtain poses where po: "jsIndex (simulationRecord p) i = Some poses"
      by (cases "jsIndex (simulationRecord p) i") auto
    then have poses: "poses = simulationRecord p ! nat i"
      by (auto simp: jsIndex_def split: if_splits)
    from copySample_nth [OF c [unfolded po]] k have len: "length ms = length (meshArray d)"
      and msk: "ms ! k = \<lparr>position = fst (simulationRecord p ! nat i ! k),
              quaternion = snd (simulationRecord p ! nat i ! k)\<rparr>"
      by (simp_all add: poses)
    from k len have k': "k < length ms" by simp
    from present_mesh [OF pr k'] present_fields [OF pr] len msk show ?thesis
      unfolding if_not_P [OF False] by simp
  qed
qed

lemma renderHelper_main_cases:
  assumes "renderHelper_main slerp now (d, p) = Inr (dm, pm, againm)"
  shows "jsIndex (simulationRecord p) (upperIndex p now) = Some sj \<Longrightarrow>
          \<exists>ms. blendSamples slerp (simulationRecord p ! nat (lowerIndex p now)) sj
                  (stepAt p now - real_of_int (lowerIndex p now)) (meshArray d) = Inr ms
             \<and> againm \<and> pm = p
             \<and> meshArray dm = (if magic (params d)
                                then correctAll (rollResult p) (desiredRolls (params d)) ms else ms)
             \<and> rendered dm = rendered d @ [meshArray dm]"
    and "jsIndex (simulationRecord p) (upperIndex p now) = None \<Longrightarrow>
          \<exists>ms. copySample (jsIndex (simulationRecord p) (lowerIndex p now)) (meshArray d) = Inr ms
             \<and> \<not> againm \<and> pm = p
             \<and> meshArray dm = (if magic (params d)
                                then correctAll (rollResult p) (desiredRolls (params d)) ms else ms)
             \<and> rendered dm = rendered d @ [meshArray dm]"
  using assms by (auto simp: renderHelper_main_def Let_def split: sum.splits)

lemma corrected_mesh:
  assumes "ms' = (if magic (params d) then correctAll (rollResult p) (desiredRolls (params d)) ms else ms)"
    "k < length ms"
  shows "ms' ! k = displayedAs d p k (ms ! k)" "length ms' = length ms"
  using assms by (auto simp: displayedAs_def correctAll_nth correctAll_length)

lemma interpolated_main:
  assumes rh: "renderHelper_main slerp now (d, p) = Inr (dm, pm, againm)"
    and s0: "s = (now - start p) / 1000 * 60"
    and i0: "i = max 0 (min (int (length (simulationRecord p)) - 1) \<lfloor>s\<rfloor>)" and j0: "j = \<lceil>s\<rceil>"
    and k: "k < length (meshArray d)"
  shows "(if 0 \<le> j \<and> j < int (length (simulationRecord p)) then
        againm
        \<and> meshArray dm ! k = displayedAs d p k
             \<lparr>position = lerpVectors (fst (simulationRecord p ! nat i ! k))
                            (fst (simulationRecord p ! nat j ! k)) (s - real_of_int i),
              quaternion = slerp (snd (simulationRecord p ! nat i ! k))
                            (snd (simulationRecord p ! nat j ! k)) (s - real_of_int i)\<rparr>
      else
        \<not> againm
        \<and> meshArray dm ! k = displayedAs d p k
             \<lparr>position = fst (simulationRecord p ! nat i ! k),
              quaternion = snd (simulationRecord p ! nat i ! k)\<rparr>)
     \<and> length (meshArray dm) = length (meshArray d)
     \<and> last (rendered dm) = meshArray dm
     \<and> pm = p"
proof -
  from s0 have s: "s = stepAt p now" by (simp add: stepAt_def)
  have i: "i = lowerIndex p now" and j: "j = upperIndex p now"
    unfolding lowerIndex_def upperIndex_def clamp_def s [symmetric] by (rule i0, rule j0)
  show ?thesis
  proof (cases "0 \<le> j \<and> j < int (length (simulationRecord p))")
    case True
    then have ji: "jsIndex (simulationRecord p) (upperIndex p now) = Some (simulationRecord p ! nat j)"
      by (simp add: jsIndex_def j)
    from renderHelper_main_cases(1) [OF rh ji] obtain ms where
      b: "blendSamples slerp (simulationRecord p ! nat i) (simulationRecord p ! nat j)
            (s - real_of_int i) (meshArray d) = Inr ms"
      and a: "againm" "pm = p"
      and m: "meshArray dm = (if magic (params d)
                                then correctAll (rollResult p) (desiredRolls (params d)) ms else ms)"
      and r: "rendered dm = rendered d @ [meshArray dm]"
      by (auto simp: s i)
    from blendSamples_nth [OF b] k have len: "length ms = length (meshArray d)"
      and msk: "ms ! k = \<lparr>position = lerpVectors (fst (simulationRecord p ! nat i ! k))
                            (fst (simulationRecord p ! nat j ! k)) (s - real_of_int i),
              quaternion = slerp (snd (simulationRecord p ! nat i ! k))
                            (snd (simulationRecord p ! nat j ! k)) (s - real_of_int i)\<rparr>"
      by simp_all
    from k len have k': "k < length ms" by simp
    from corrected_mesh [OF m k'] a r len msk show ?thesis
      unfolding if_P [OF True] by simp
  next
    case False
    then have ji: "jsIndex (simulationRecord p) (upperIndex p now) = None"
      by (auto simp: jsIndex_def j)
    from renderHelper_main_cases(2) [OF rh ji] obtain ms where
      c: "copySample (jsIndex (simulationRecord p) i) (meshArray d) = Inr ms"
      and a: "\<not> againm" "pm = p"
      and m: "meshArray dm = (if magic (params d)
                                then correctAll (rollResult p) (desiredRolls (params d)) ms else ms)"
      and r: "rendered dm = rendered d @ [meshArray dm]"
      by (auto simp: i)
    from k have ne: "meshArray d \<noteq> []" by auto
    with c copySample_None obtain poses where po: "jsIndex (simulationRecord p) i = Some poses"
      by (cases "jsIndex (simulationRecord p) i") auto
    then have poses: "poses = simulationRecord p ! nat i"
      by (auto simp: jsIndex_def split: if_splits)
    from copySample_nth [OF c [unfolded po]] k have len: "length ms = length (meshArray d)"
      and msk: "ms ! k = \<lparr>position = fst (simulationRecord p ! nat i ! k),
              quaternion = snd (simulationRecord p ! nat i ! k)\<rparr>"
      by (simp_all add: poses)
    from k len have k': "k < length ms" by simp
    from corrected_mesh [OF m k'] a r len msk show ?thesis
      unfolding if_not_P [OF False] by simp
  qed
qed

lemma run_half_main:
  "renderHelper_main lerpQuat (25 / 3) (screen, session tok) =
     Inr (screen\<lparr>meshArray := [\<lparr>position = Vec3 1 (3 / 2) 0, quaternion = Quat 0 0 (1 / 2) 1\<rparr>],
                 rendered := [[\<lparr>position = Vec3 1 (3 / 2) 0, quaternion = Quat 0 0 (1 / 2) 1\<rparr>]]\<rparr>,
          session tok, True)"
  by (simp add: renderHelper_main_def idx_half step_half jsIndex_def session_fields
      blendSamples_def Let_def lerpVectors_def lerpQuat_def screen_def twoSamples_def)

lemma run_late_main:
  "renderHelper_main lerpQuat 50 (screen, session tok) =
     Inr (screen\<lparr>meshArray := [\<lparr>position = Vec3 2 0 0, quaternion = Quat 0 0 1 1\<rparr>],
                 rendered := [[\<lparr>position = Vec3 2 0 0, quaternion = Quat 0 0 1 1\<rparr>]]\<rparr>,
          session tok, False)"
  by (simp add: renderHelper_main_def idx_late jsIndex_def session_fields
      copySample_def Let_def screen_def twoSamples_def)

text \<open>
  \<^bold>\<open>C7, as the code has it.\<close> One callback of the interpolated mode, run at clock reading \<open>now\<close>
  on a playback started at \<open>start\<close>, with \<open>s = (now - start) / 1000 * 60\<close> computed in the real
  numbers, \<open>i\<close> the floor of \<open>s\<close> clamped to the indices of the record and \<open>j\<close> the ceiling of
  \<open>s\<close>. If sample \<open>j\<close> exists, every mesh gets the position interpolated linearly and the
  orientation interpolated by \<open>slerp\<close> between samples \<open>i\<close> and \<open>j\<close> at \<open>s - i\<close>; otherwise
  every mesh gets the pose of sample \<open>i\<close> and no callback is requested. In both cases it is
  this pose, turned by the corrector when \<^verbatim>\<open>params.magic\<close> is set, that is rendered, and the
  roll outcome is as before. When sample \<open>j\<close> exists, the callback of \<^verbatim>\<open>part_000\<close> requests
  another callback exactly when the token of the playback is the current one; the callback
  of \<^verbatim>\<open>src/main.ts\<close>, which has no token, requests one always.
\<close>

theorem interpolated_frame:
  "(\<not> renderFixedFrames (params d) \<and> renderHelper slerp now (d, p) = Inr (d', p', again)
   \<and> s = (now - start p) / 1000 * 60
   \<and> i = max 0 (min (int (length (simulationRecord p)) - 1) \<lfloor>s\<rfloor>) \<and> j = \<lceil>s\<rceil>
   \<and> k < length (meshArray d)
   \<longrightarrow>
     (if 0 \<le> j \<and> j < int (length (simulationRecord p)) then
        again = (id_token p = renderId d)
        \<and> meshArray d' ! k = displayedAs d p k
             \<lparr>position = lerpVectors (fst (simulationRecord p ! nat i ! k))
                            (fst (simulationRecord p ! nat j ! k)) (s - real_of_int i),
              quaternion = slerp (snd (simulationRecord p ! nat i ! k))
                            (snd (simulationRecord p ! nat j ! k)) (s - real_of_int i)\<rparr>
      else
        \<not> again
        \<and> meshArray d' ! k = displayedAs d p k
             \<lparr>position = fst (simulationRecord p ! nat i ! k),
              quaternion = snd (simulationRecord p ! nat i ! k)\<rparr>)
     \<and> length (meshArray d') = length (meshArray d)
     \<and> last (rendered d') = meshArray d'
     \<and> rollResult p' = rollResult p \<and> simulationRecord p' = simulationRecord p)
   \<and> (renderHelper_main slerp now (d, p) = Inr (dm, pm, againm)
      \<and> s = (now - start p) / 1000 * 60
      \<and> i = max 0 (min (int (length (simulationRecord p)) - 1) \<lfloor>s\<rfloor>) \<and> j = \<lceil>s\<rceil>
      \<and> k < length (meshArray d)
      \<longrightarrow>
        (if 0 \<le> j \<and> j < int (length (simulationRecord p)) then
           againm
           \<and> meshArray dm ! k = displayedAs d p k
                \<lparr>position = lerpVectors (fst (simulationRecord p ! nat i ! k))
                               (fst (simulationRecord p ! nat j ! k)) (s - real_of_int i),
                 quaternion = slerp (snd (simulationRecord p ! nat i ! k))
                               (snd (simulationRecord p ! nat j ! k)) (s - real_of_int i)\<rparr>
         else
           \<not> againm
           \<and> meshArray dm ! k = displayedAs d p k
                \<lparr>position = fst (simulationRecord p ! nat i ! k),
                 quaternion = snd (simulationRecord p ! nat i ! k)\<rparr>)
        \<and> length (meshArray dm) = length (meshArray d)
        \<and> last (rendered dm) = meshArray dm
        \<and> pm = p)"
proof (rule conjI)
  show "\<not> renderFixedFrames (params d) \<and> renderHelper slerp now (d, p) = Inr (d', p', again)
   \<and> s = (now - start p) / 1000 * 60
   \<and> i = max 0 (min (int (length (simulationRecord p)) - 1) \<lfloor>s\<rfloor>) \<and> j = \<lceil>s\<rceil>
   \<and> k < length (meshArray d)
   \<longrightarrow>
     (if 0 \<le> j \<and> j < int (length (simulationRecord p)) then
        again = (id_token p = renderId d)
        \<and> meshArray d' ! k = displayedAs d p k
             \<lparr>position = lerpVectors (fst (simulationRecord p ! nat i ! k))
                            (fst (simulationRecord p ! nat j ! k)) (s - real_of_int i),
              quaternion = slerp (snd (simulationRecord p ! nat i ! k))
                            (snd (simulationRecord p ! nat j ! k)) (s - real_of_int i)\<rparr>
      else
        \<not> again
        \<and> meshArray d' ! k = displayedAs d p k
             \<lparr>position = fst (simulationRecord p ! nat i ! k),
              quaternion = snd (simulationRecord p ! nat i ! k)\<rparr>)
     \<and> length (meshArray d') = length (meshArray d)
     \<and> last (rendered d') = meshArray d'
     \<and> rollResult p' = rollResult p \<and> simulationRecord p' = simulationRecord p"
    by (rule interpolated_part000)
next
  show "renderHelper_main slerp now (d, p) = Inr (dm, pm, againm)
      \<and> s = (now - start p) / 1000 * 60
      \<and> i = max 0 (min (int (length (simulationRecord p)) - 1) \<lfloor>s\<rfloor>) \<and> j = \<lceil>s\<rceil>
      \<and> k < length (meshArray d)
      \<longrightarrow>
        (if 0 \<le> j \<and> j < int (length (simulationRecord p)) then
           againm
           \<and> meshArray dm ! k = displayedAs d p k
                \<lparr>position = lerpVectors (fst (simulationRecord p ! nat i ! k))
                               (fst (simulationRecord p ! nat j ! k)) (s - real_of_int i),
                 quaternion = slerp (snd (simulationRecord p ! nat i ! k))
                               (snd (simulationRecord p ! nat j ! k)) (s - real_of_int i)\<rparr>
         else
           \<not> againm
           \<and> meshArray dm ! k = displayedAs d p k
                \<lparr>position = fst (simulationRecord p ! nat i ! k),
                 quaternion = snd (simulationRecord p ! nat i ! k)\<rparr>)
        \<and> length (meshArray dm) = length (meshArray d)
        \<and> last (rendered dm) = meshArray dm
        \<and> pm = p"
  proof
    assume h: "renderHelper_main slerp now (d, p) = Inr (dm, pm, againm)
      \<and> s = (now - start p) / 1000 * 60
      \<and> i = max 0 (min (int (length (simulationRecord p)) - 1) \<lfloor>s\<rfloor>) \<and> j = \<lceil>s\<rceil>
      \<and> k < length (meshArray d)"
    then have "renderHelper_main slerp now (d, p) = Inr (dm, pm, againm)"
      "s = (now - start p) / 1000 * 60"
      "i = max 0 (min (int (length (simulationRecord p)) - 1) \<lfloor>s\<rfloor>)" "j = \<lceil>s\<rceil>"
      "k < length (meshArray d)"
      by blast+
    then show "(if 0 \<le> j \<and> j < int (length (simulationRecord p)) then
           againm
           \<and> meshArray dm ! k = displayedAs d p k
                \<lparr>position = lerpVectors (fst (simulationRecord p ! nat i ! k))
                               (fst (simulationRecord p ! nat j ! k)) (s - real_of_int i),
                 quaternion = slerp (snd (simulationRecord p ! nat i ! k))
                               (snd (simulationRecord p ! nat j ! k)) (s - real_of_int i)\<rparr>
         else
           \<not> againm
           \<and> meshArray dm ! k = displayedAs d p k
                \<lparr>position = fst (simulationRecord p ! nat i ! k),
                 quaternion = snd (simulationRecord p ! nat i ! k)\<rparr>)
        \<and> length (meshArray dm) = length (meshArray d)
        \<and> last (rendered dm) = meshArray dm
        \<and> pm = p"
      by (rule interpolated_main)
  qed
qed

text \<open>Both branches of both callbacks on the record of two samples: half way between
  them, and past the end.\<close>

theorem interpolated_frame_witness:
  "\<not> renderFixedFrames (params screen)
   \<and> (25 / 3 - start (session 1)) / 1000 * 60 = (1 / 2 :: real)
   \<and> asksAgain (renderHelper lerpQuat (25 / 3) (screen, session 1))
   \<and> shown (renderHelper lerpQuat (25 / 3) (screen, session 1))
       = [\<lparr>position = Vec3 1 (3 / 2) 0, quaternion = Quat 0 0 (1 / 2) 1\<rparr>]
   \<and> \<not> asksAgain (renderHelper lerpQuat 50 (screen, session 1))
   \<and> shown (renderHelper lerpQuat 50 (screen, session 1))
       = [\<lparr>position = Vec3 2 0 0, quaternion = Quat 0 0 1 1\<rparr>]
   \<and> asksAgain (renderHelper_main lerpQuat (25 / 3) (screen, session 1))
   \<and> shown (renderHelper_main lerpQuat (25 / 3) (screen, session 1))
       = [\<lparr>position = Vec3 1 (3 / 2) 0, quaternion = Quat 0 0 (1 / 2) 1\<rparr>]
   \<and> \<not> asksAgain (renderHelper_main lerpQuat 50 (screen, session 1))
   \<and> shown (renderHelper_main lerpQuat 50 (screen, session 1))
       = [\<lparr>position = Vec3 2 0 0, quaternion = Quat 0 0 1 1\<rparr>]"
proof -
  obtain d1 p1 a1 where r1: "renderHelper lerpQuat (25 / 3) (screen, session 1) = Inr (d1, p1, a1)"
    using run_half [of 1] by blast
  obtain d2 p2 a2 where r2: "renderHelper lerpQuat 50 (screen, session 1) = Inr (d2, p2, a2)"
    using run_late [of 1] by blast
  obtain d3 p3 a3 where
    r3: "renderHelper_main lerpQuat (25 / 3) (screen, session 1) = Inr (d3, p3, a3)"
    using run_half_main [of 1] by blast
  obtain d4 p4 a4 where r4: "renderHelper_main lerpQuat 50 (screen, session 1) = Inr (d4, p4, a4)"
    using run_late_main [of 1] by blast
  have nf: "\<not> renderFixedFrames (params screen)" by (simp add: screen_def)
  have s1: "(25 / 3 - start (session 1)) / 1000 * 60 = (1 / 2 :: real)" by (simp add: session_def)
  have s2: "(50 - start (session 1)) / 1000 * 60 = (3 :: real)" by (simp add: session_def)
  have m: "length (meshArray screen) = 1" by (simp add: screen_def)
  have mg: "\<not> magic (params screen)" "renderId screen = 1" "id_token (session 1) = 1"
    by (simp_all add: screen_def session_def)
  note half = interpolated_frame [where d = screen and slerp = lerpQuat and now = "25 / 3"
      and p = "session 1" and d' = d1 and p' = p1 and again = a1 and s = "1 / 2" and i = 0
      and j = 1 and k = 0 and dm = d3 and pm = p3 and againm = a3]
  note late = interpolated_frame [where d = screen and slerp = lerpQuat and now = 50
      and p = "session 1" and d' = d2 and p' = p2 and again = a2 and s = 3 and i = 1
      and j = 3 and k = 0 and dm = d4 and pm = p4 and againm = a4]
  from half nf r1 r3 s1 m mg
  have f1: "a1 \<and> length (meshArray d1) = 1
      \<and> meshArray d1 ! 0 = \<lparr>position = Vec3 1 (3 / 2) 0, quaternion = Quat 0 0 (1 / 2) 1\<rparr>"
    and f3: "a3 \<and> length (meshArray d3) = 1
      \<and> meshArray d3 ! 0 = \<lparr>position = Vec3 1 (3 / 2) 0, quaternion = Quat 0 0 (1 / 2) 1\<rparr>"
    by (simp_all add: session_fields twoSamples_def displayedAs_def lerpVectors_def lerpQuat_def
        ceiling_half)
  from late nf r2 r4 s2 m mg
  have f2: "\<not> a2 \<and> length (meshArray d2) = 1
      \<and> meshArray d2 ! 0 = \<lparr>position = Vec3 2 0 0, quaternion = Quat 0 0 1 1\<rparr>"
    and f4: "\<not> a4 \<and> length (meshArray d4) = 1
      \<and> meshArray d4 ! 0 = \<lparr>position = Vec3 2 0 0, quaternion = Quat 0 0 1 1\<rparr>"
    by (simp_all add: session_fields twoSamples_def displayedAs_def)
  have one: "length xs = 1 \<and> xs ! 0 = x \<Longrightarrow> xs = [x]" for xs :: "object3d list" and x
    by (cases xs) auto
  from f1 f2 f3 f4 r1 r2 r3 r4 nf s1 show ?thesis
    by (simp add: asksAgain_def shown_def one)
qed

text \<open>
  \<^bold>\<open>C7, as the claim words it, fails.\<close> With sample \<open>j\<close> in the record and the playback no
  longer the current one, the callback of \<^verbatim>\<open>src/main.ts\<close> requests another callback; that of
  \<^verbatim>\<open>part_000\<close> does not.
\<close>

theorem interpolated_frame_counterexample:
  "id_token (session 0) \<noteq> renderId screen
   \<and> asksAgain (renderHelper_main lerpQuat (25 / 3) (screen, session 0))
   \<and> \<not> asksAgain (renderHelper lerpQuat (25 / 3) (screen, session 0))"
  by (simp add: run_half run_half_main asksAgain_def) (simp add: screen_def session_def)

text \<open>
  \<^bold>\<open>C4.\<close> A callback of the playback that completes, in either mode and with or without the
  correction, leaves the face array and the trajectory record as they were. Its whole
  result is the same whatever poses the meshes had before it, in particular the corrected
  poses of the frame before: every mesh is posed from the record first, so corrections do
  not add up. The correction itself changes no position.
\<close>

theorem correction_is_display_only:
  "renderHelper slerp now (d, p) = Inr (d', p', again) \<and> length ms = length (meshArray d)
   \<longrightarrow> rollResult p' = rollResult p \<and> simulationRecord p' = simulationRecord p
       \<and> renderHelper slerp now (d\<lparr>meshArray := ms\<rparr>, p) = Inr (d', p', again)
       \<and> map position (correctAll (rollResult p) (desiredRolls (params d)) ms) = map position ms"
proof
  assume h: "renderHelper slerp now (d, p) = Inr (d', p', again) \<and> length ms = length (meshArray d)"
  then have rh: "renderHelper slerp now (d, p) = Inr (d', p', again)"
    and l: "length ms = length (meshArray d)" by simp_all
  from renderHelper_closure [OF rh] renderHelper_forgets [OF l, of slerp now p] rh
  show "rollResult p' = rollResult p \<and> simulationRecord p' = simulationRecord p
       \<and> renderHelper slerp now (d\<lparr>meshArray := ms\<rparr>, p) = Inr (d', p', again)
       \<and> map position (correctAll (rollResult p) (desiredRolls (params d)) ms) = map position ms"
    by (simp add: correctAll_position)
qed

text \<open>The terminal frame with the correction on, run once more from the meshes it produced.\<close>

theorem correction_is_display_only_witness:
  "magic (params screenMagic)
   \<and> (\<exists>d' p' again. renderHelper lerpQuat 50 (screenMagic, session 1) = Inr (d', p', again)
        \<and> rollResult p' = [1] \<and> simulationRecord p' = twoSamples
        \<and> length (meshArray d') = length (meshArray screenMagic)
        \<and> renderHelper lerpQuat 50 (screenMagic\<lparr>meshArray := meshArray d'\<rparr>, session 1)
            = Inr (d', p', again))"
proof -
  have "\<exists>res. renderHelper lerpQuat 50 (screenMagic, session 1) = Inr res"
    by (rule renderHelper_total)
      (simp_all add: screenMagic_def screen_def session_def twoSamples_def)
  then obtain d' p' again where
    r: "renderHelper lerpQuat 50 (screenMagic, session 1) = Inr (d', p', again)"
    by (metis prod_cases3)
  have nf: "\<not> renderFixedFrames (params screenMagic)"
    by (simp add: screenMagic_def screen_def)
  from renderHelper_length [OF r] have l: "length (meshArray d') = length (meshArray screenMagic)" .
  from correction_is_display_only [of lerpQuat 50 screenMagic "session 1" d' p' again "meshArray d'"] r l
  have "rollResult p' = rollResult (session 1) \<and> simulationRecord p' = simulationRecord (session 1)
       \<and> renderHelper lerpQuat 50 (screenMagic\<lparr>meshArray := meshArray d'\<rparr>, session 1)
            = Inr (d', p', again)"
    by blast
  with r l have "renderHelper lerpQuat 50 (screenMagic, session 1) = Inr (d', p', again)
        \<and> rollResult p' = [1] \<and> simulationRecord p' = twoSamples
        \<and> length (meshArray d') = length (meshArray screenMagic)
        \<and> renderHelper lerpQuat 50 (screenMagic\<lparr>meshArray := meshArray d'\<rparr>, session 1)
            = Inr (d', p', again)"
    by (simp add: session_def)
  moreover have "magic (params screenMagic)" by (simp add: screenMagic_def)
  ultimately show ?thesis by blast
qed

text \<open>
  \<^bold>\<open>C6, as the code has it.\<close> A callback whose token is no longer the current one requests no
  further callback, so the chain of callbacks ends with it, and the current token stays as
  it is. The callback itself still runs to its end: unless it is a fixed-frame callback at
  the last sample, it poses the meshes, renders them, and with \<^verbatim>\<open>params.storeFrames\<close> appends
  one frame to \<^verbatim>\<open>storedFrames\<close>.
\<close>

theorem stale_callback:
  "id_token p \<noteq> renderId d \<and> renderHelper slerp now (d, p) = Inr (d', p', again)
   \<longrightarrow> \<not> again \<and> renderId d' = renderId d
       \<and> (if renderFixedFrames (params d)
              \<and> int (length (simulationRecord p)) - 1 \<le> int (fixedFrameIdx p)
           then rendered d' = rendered d \<and> storedFrames d' = storedFrames d
           else rendered d' = rendered d @ [meshArray d']
                \<and> length (storedFrames d')
                   = length (storedFrames d) + (if storeFrames (params d) then 1 else 0))
       \<and> chain slerp (now # nows) (d, p) = Inr (d', p', False)"
proof
  assume h: "id_token p \<noteq> renderId d \<and> renderHelper slerp now (d, p) = Inr (d', p', again)"
  then have st: "id_token p \<noteq> renderId d"
    and rh: "renderHelper slerp now (d, p) = Inr (d', p', again)" by simp_all
  from renderHelper_stale [OF st rh] have na: "\<not> again" .
  with rh have ch: "chain slerp (now # nows) (d, p) = Inr (d', p', False)" by simp
  have "(if renderFixedFrames (params d)
              \<and> int (length (simulationRecord p)) - 1 \<le> int (fixedFrameIdx p)
           then rendered d' = rendered d \<and> storedFrames d' = storedFrames d
           else rendered d' = rendered d @ [meshArray d']
                \<and> length (storedFrames d')
                   = length (storedFrames d) + (if storeFrames (params d) then 1 else 0))"
  proof (cases "renderFixedFrames (params d)
              \<and> int (length (simulationRecord p)) - 1 \<le> int (fixedFrameIdx p)")
    case True
    with rh renderHelper_terminal [of d p slerp now] show ?thesis
      by (auto split: sum.splits)
  next
    case False
    from renderHelper_presents [OF False rh] show ?thesis
      unfolding if_not_P [OF False] .
  qed
  with na ch renderHelper_closure [OF rh]
  show "\<not> again \<and> renderId d' = renderId d
       \<and> (if renderFixedFrames (params d)
              \<and> int (length (simulationRecord p)) - 1 \<le> int (fixedFrameIdx p)
           then rendered d' = rendered d \<and> storedFrames d' = storedFrames d
           else rendered d' = rendered d @ [meshArray d']
                \<and> length (storedFrames d')
                   = length (storedFrames d) + (if storeFrames (params d) then 1 else 0))
       \<and> chain slerp (now # nows) (d, p) = Inr (d', p', False)"
    by simp
qed

text \<open>A callback with the old token 0 while the current token is 1.\<close>

theorem stale_callback_witness:
  "id_token (session 0) \<noteq> renderId screen
   \<and> \<not> asksAgain (renderHelper lerpQuat (25 / 3) (screen, session 0))
   \<and> chain lerpQuat [25 / 3, 50] (screen, session 0)
       = renderHelper lerpQuat (25 / 3) (screen, session 0)"
proof -
  obtain d1 p1 a1 where r1: "renderHelper lerpQuat (25 / 3) (screen, session 0) = Inr (d1, p1, a1)"
    using run_half [of 0] by blast
  have st: "id_token (session 0) \<noteq> renderId screen" by (simp add: screen_def session_def)
  from stale_callback [of "session 0" screen lerpQuat "25 / 3" d1 p1 a1 "[50]"] st r1
  have "\<not> a1 \<and> chain lerpQuat [25 / 3, 50] (screen, session 0) = Inr (d1, p1, False)"
    by blast
  with st r1 show ?thesis by (simp add: asksAgain_def)
qed

text \<open>
  \<^bold>\<open>C6, as the claim words it, fails.\<close> On a display that has rendered and stored nothing,
  the callback of a superseded playback renders one scene and stores one frame.
\<close>

theorem stale_callback_counterexample:
  "id_token (session 0) \<noteq> renderId screen
   \<and> renders (Inr (screen, session 0, True)) = 0
   \<and> exports (Inr (screen, session 0, True)) = 0
   \<and> renders (renderHelper lerpQuat (25 / 3) (screen, session 0)) = 1
   \<and> exports (renderHelper lerpQuat (25 / 3) (screen, session 0)) = 1"
  by (simp add: run_half renders_def exports_def) (simp add: screen_def session_def)

text \<open>
  \<^bold>\<open>C10, as the code has it.\<close> A fixed-frame callback run when the index has reached the last
  sample copies that sample into the meshes, requests another callback exactly when its
  token is the current one, and returns: the index and the other locals stay as they are,
  nothing is rendered and no frame is appended to \<^verbatim>\<open>storedFrames\<close>. While the token stays
  current the chain of callbacks goes on for as many animation frames as the browser
  gives, each one ending in the same state.
\<close>

theorem fixed_mode_end:
  "renderFixedFrames (params d) \<and> int (length (simulationRecord p)) - 1 \<le> int (fixedFrameIdx p)
   \<and> renderHelper slerp now (d, p) = Inr (d', p', again)
   \<longrightarrow> again = (id_token p = renderId d) \<and> p' = p
       \<and> rendered d' = rendered d \<and> storedFrames d' = storedFrames d
       \<and> copySample (jsIndex (simulationRecord p) (int (fixedFrameIdx p))) (meshArray d)
           = Inr (meshArray d')
       \<and> (id_token p = renderId d \<longrightarrow> chain slerp (now # nows) (d, p) = Inr (d', p, True))"
proof
  assume h: "renderFixedFrames (params d) \<and> int (length (simulationRecord p)) - 1 \<le> int (fixedFrameIdx p)
   \<and> renderHelper slerp now (d, p) = Inr (d', p', again)"
  then have fx: "renderFixedFrames (params d)"
    and tm: "int (length (simulationRecord p)) - 1 \<le> int (fixedFrameIdx p)"
    and rh: "renderHelper slerp now (d, p) = Inr (d', p', again)" by simp_all
  from rh renderHelper_terminal [OF fx tm, of slerp now] obtain ms where
    cp: "copySample (jsIndex (simulationRecord p) (int (fixedFrameIdx p))) (meshArray d) = Inr ms"
    and d': "d' = d\<lparr>meshArray := ms\<rparr>" and p': "p' = p" and a: "again = (id_token p = renderId d)"
    by (auto split: sum.splits)
  from chain_terminal [OF fx tm _ cp, of slerp now nows] d'
  have "id_token p = renderId d \<longrightarrow> chain slerp (now # nows) (d, p) = Inr (d', p, True)"
    by simp
  with cp d' p' a
  show "again = (id_token p = renderId d) \<and> p' = p
       \<and> rendered d' = rendered d \<and> storedFrames d' = storedFrames d
       \<and> copySample (jsIndex (simulationRecord p) (int (fixedFrameIdx p))) (meshArray d)
           = Inr (meshArray d')
       \<and> (id_token p = renderId d \<longrightarrow> chain slerp (now # nows) (d, p) = Inr (d', p, True))"
    by simp
qed

text \<open>Three animation frames at the last of two samples.\<close>

theorem fixed_mode_end_witness:
  "renderFixedFrames (params screenFixed)
   \<and> int (length (simulationRecord (atLastSample 1))) - 1 \<le> int (fixedFrameIdx (atLastSample 1))
   \<and> chain lerpQuat [50, 60, 70] (screenFixed, atLastSample 1)
       = Inr (screenFixed\<lparr>meshArray := [\<lparr>position = Vec3 2 0 0, quaternion = Quat 0 0 1 1\<rparr>]\<rparr>,
              atLastSample 1, True)"
proof -
  have fx: "renderFixedFrames (params screenFixed)" by (simp add: screenFixed_def)
  have tm: "int (length (simulationRecord (atLastSample 1))) - 1 \<le> int (fixedFrameIdx (atLastSample 1))"
    by (simp add: atLastSample_def session_def twoSamples_def)
  have r: "renderHelper lerpQuat 50 (screenFixed, atLastSample 1) =
     Inr (screenFixed\<lparr>meshArray := [\<lparr>position = Vec3 2 0 0, quaternion = Quat 0 0 1 1\<rparr>]\<rparr>,
          atLastSample 1, True)"
    by (rule fixed_last) (simp_all add: screenFixed_def screen_def atLastSample_def session_def)
  have cur: "id_token (atLastSample 1) = renderId screenFixed"
    by (simp add: screenFixed_def screen_def atLastSample_def session_def)
  from fixed_mode_end [of screenFixed "atLastSample 1" lerpQuat 50 _ _ True "[60, 70]"] fx tm r cur
  have "chain lerpQuat [50, 60, 70] (screenFixed, atLastSample 1)
       = Inr (screenFixed\<lparr>meshArray := [\<lparr>position = Vec3 2 0 0, quaternion = Quat 0 0 1 1\<rparr>]\<rparr>,
              atLastSample 1, True)"
    by blast
  with fx tm show ?thesis by blast
qed

text \<open>
  \<^bold>\<open>C10, as the claim words it, fails.\<close> Fixed-frame playback of a record of two samples with
  frame export on, over four animation frames with the token current throughout: the chain
  still asks for a further frame, but only the first callback has rendered and stored a
  frame; the callbacks at the last sample have added none.
\<close>

theorem fixed_mode_end_counterexample:
  "renderFixedFrames (params screenFixed) \<and> storeFrames (params screenFixed)
   \<and> id_token (session 1) = renderId screenFixed
   \<and> length (simulationRecord (session 1)) = 2
   \<and> asksAgain (chain lerpQuat [0, 17, 33, 50] (screenFixed, session 1))
   \<and> renders (chain lerpQuat [0, 17, 33, 50] (screenFixed, session 1)) = 1
   \<and> exports (chain lerpQuat [0, 17, 33, 50] (screenFixed, session 1)) = 1"
proof -
  define d1 where "d1 = screenFixed\<lparr>meshArray := [\<lparr>position = Vec3 0 3 0, quaternion = Quat 0 0 0 1\<rparr>],
                 rendered := [[\<lparr>position = Vec3 0 3 0, quaternion = Quat 0 0 0 1\<rparr>]],
                 storedFrames := [\<lparr>duration = Some (1 / 60 * 1000),
                    frame = [\<lparr>position = Vec3 0 3 0, quaternion = Quat 0 0 0 1\<rparr>]\<rparr>]\<rparr>"
  define p1 where "p1 = (session 1)\<lparr>fixedFrameIdx := 1, lastFrameTime := 0\<rparr>"
  define d2 where "d2 = d1\<lparr>meshArray := [\<lparr>position = Vec3 2 0 0, quaternion = Quat 0 0 1 1\<rparr>]\<rparr>"
  have a: "renderHelper lerpQuat 0 (screenFixed, session 1) = Inr (d1, p1, True)"
    unfolding d1_def p1_def by (rule fixed_first)
  have b: "renderHelper lerpQuat t (d1, p1) = Inr (d2, p1, True)" for t
    unfolding d2_def
    by (rule fixed_last) (simp_all add: d1_def p1_def screenFixed_def screen_def session_def)
  have c: "renderHelper lerpQuat t (d2, p1) = Inr (d2, p1, True)" for t
  proof -
    have "renderHelper lerpQuat t (d2, p1)
        = Inr (d2\<lparr>meshArray := [\<lparr>position = Vec3 2 0 0, quaternion = Quat 0 0 1 1\<rparr>]\<rparr>, p1, True)"
      by (rule fixed_last)
        (simp_all add: d2_def d1_def p1_def screenFixed_def screen_def session_def)
    then show ?thesis by (simp add: d2_def)
  qed
  have ch: "chain lerpQuat [0, 17, 33, 50] (screenFixed, session 1) = Inr (d2, p1, True)"
    by (simp only: chain.simps a b c sum.case prod.case if_True fst_conv snd_conv)
  show ?thesis
    unfolding ch
    by (simp add: asksAgain_def renders_def exports_def d2_def d1_def screenFixed_def screen_def
        session_def twoSamples_def)
qed
end
